theory Spec2Isabelle
  imports Complex_Main "HOL-Library.Multiset"
begin

section \<open>JavaScript numbers and primitive values\<close>

text \<open>
  A JavaScript number is a finite value, one of the two infinities, or NaN. Finite values
  are idealised as reals: rounding and overflow of IEEE doubles are not modelled, and
  neither is the sign of zero (every zero is the positive one). The special values follow
  IEEE 754, which is what decides where \<open>Number(x) || 0\<close>, \<open>Math.max\<close> and the comparisons
  of the program let a value through.
\<close>

datatype jsnum = NaN | PInf | NInf | Fin real

fun jneg :: "jsnum \<Rightarrow> jsnum" where
  "jneg NaN = NaN"
| "jneg PInf = NInf"
| "jneg NInf = PInf"
| "jneg (Fin a) = Fin (- a)"

fun jadd :: "jsnum \<Rightarrow> jsnum \<Rightarrow> jsnum" where
  "jadd (Fin a) (Fin b) = Fin (a + b)"
| "jadd (Fin a) PInf = PInf"
| "jadd (Fin a) NInf = NInf"
| "jadd PInf (Fin b) = PInf"
| "jadd NInf (Fin b) = NInf"
| "jadd PInf PInf = PInf"
| "jadd NInf NInf = NInf"
| "jadd PInf NInf = NaN"
| "jadd NInf PInf = NaN"
| "jadd NaN y = NaN"
| "jadd x NaN = NaN"

definition jsub :: "jsnum \<Rightarrow> jsnum \<Rightarrow> jsnum" where
  "jsub x y = jadd x (jneg y)"

text \<open>The sign of a real as an infinity, for products and quotients with an infinite operand.\<close>

definition inf_of_sign :: "real \<Rightarrow> jsnum" where
  "inf_of_sign a = (if a = 0 then NaN else if 0 < a then PInf else NInf)"

fun jmul :: "jsnum \<Rightarrow> jsnum \<Rightarrow> jsnum" where
  "jmul (Fin a) (Fin b) = Fin (a * b)"
| "jmul (Fin a) PInf = inf_of_sign a"
| "jmul (Fin a) NInf = inf_of_sign (- a)"
| "jmul PInf (Fin b) = inf_of_sign b"
| "jmul NInf (Fin b) = inf_of_sign (- b)"
| "jmul PInf PInf = PInf"
| "jmul NInf NInf = PInf"
| "jmul PInf NInf = NInf"
| "jmul NInf PInf = NInf"
| "jmul NaN y = NaN"
| "jmul x NaN = NaN"

fun jdiv :: "jsnum \<Rightarrow> jsnum \<Rightarrow> jsnum" where
  "jdiv (Fin a) (Fin b) = (if b = 0 then inf_of_sign a else Fin (a / b))"
| "jdiv (Fin a) PInf = Fin 0"
| "jdiv (Fin a) NInf = Fin 0"
| "jdiv PInf (Fin b) = (if 0 \<le> b then PInf else NInf)"
| "jdiv NInf (Fin b) = (if 0 \<le> b then NInf else PInf)"
| "jdiv PInf PInf = NaN"
| "jdiv NInf NInf = NaN"
| "jdiv PInf NInf = NaN"
| "jdiv NInf PInf = NaN"
| "jdiv NaN y = NaN"
| "jdiv x NaN = NaN"

text \<open>\<open>x < y\<close> and \<open>x <= y\<close> of JavaScript: false as soon as one side is NaN.\<close>

fun jlt :: "jsnum \<Rightarrow> jsnum \<Rightarrow> bool" where
  "jlt (Fin a) (Fin b) = (a < b)"
| "jlt (Fin a) PInf = True"
| "jlt (Fin a) NInf = False"
| "jlt PInf y = False"
| "jlt NInf (Fin b) = True"
| "jlt NInf PInf = True"
| "jlt NInf NInf = False"
| "jlt NaN y = False"
| "jlt x NaN = False"

fun jle :: "jsnum \<Rightarrow> jsnum \<Rightarrow> bool" where
  "jle (Fin a) (Fin b) = (a \<le> b)"
| "jle (Fin a) PInf = True"
| "jle (Fin a) NInf = False"
| "jle PInf PInf = True"
| "jle PInf (Fin b) = False"
| "jle PInf NInf = False"
| "jle NInf (Fin b) = True"
| "jle NInf PInf = True"
| "jle NInf NInf = True"
| "jle NaN y = False"
| "jle x NaN = False"

definition jgt :: "jsnum \<Rightarrow> jsnum \<Rightarrow> bool" where
  "jgt x y = jlt y x"

definition jge :: "jsnum \<Rightarrow> jsnum \<Rightarrow> bool" where
  "jge x y = jle y x"

text \<open>\<open>Math.max(x, y)\<close> and \<open>Math.min(x, y)\<close>: NaN as soon as one argument is NaN.\<close>

definition Math_max :: "jsnum \<Rightarrow> jsnum \<Rightarrow> jsnum" where
  "Math_max x y = (if x = NaN \<or> y = NaN then NaN else if jlt x y then y else x)"

definition Math_min :: "jsnum \<Rightarrow> jsnum \<Rightarrow> jsnum" where
  "Math_min x y = (if x = NaN \<or> y = NaN then NaN else if jlt y x then y else x)"

fun Math_floor :: "jsnum \<Rightarrow> jsnum" where
  "Math_floor (Fin a) = Fin (of_int \<lfloor>a\<rfloor>)"
| "Math_floor x = x"

text \<open>The remainder \<open>x % y\<close>: it has the sign of the dividend.\<close>

definition trunc :: "real \<Rightarrow> int" where
  "trunc q = (if 0 \<le> q then \<lfloor>q\<rfloor> else \<lceil>q\<rceil>)"

fun jrem :: "jsnum \<Rightarrow> jsnum \<Rightarrow> jsnum" where
  "jrem (Fin a) (Fin b) = (if b = 0 then NaN else Fin (a - b * of_int (trunc (a / b))))"
| "jrem (Fin a) PInf = Fin a"
| "jrem (Fin a) NInf = Fin a"
| "jrem x y = NaN"

text \<open>A number is truthy unless it is zero or NaN.\<close>

definition truthy_num :: "jsnum \<Rightarrow> bool" where
  "truthy_num n = (n \<noteq> NaN \<and> n \<noteq> Fin 0)"

text \<open>\<open>n || 0\<close> on a number.\<close>

definition or0 :: "jsnum \<Rightarrow> jsnum" where
  "or0 n = (if truthy_num n then n else Fin 0)"

text \<open>
  The leaves of what the metrics provider returns are primitive values of any type: the
  program tests their type and converts them itself.
\<close>

datatype jsval = JUndefined | JNull | JBool bool | JNum jsnum | JStr string

fun truthy :: "jsval \<Rightarrow> bool" where
  "truthy JUndefined = False"
| "truthy JNull = False"
| "truthy (JBool b) = b"
| "truthy (JNum n) = truthy_num n"
| "truthy (JStr s) = (s \<noteq> [])"

subsection \<open>Conversion of a string to a number\<close>

text \<open>
  \<open>Number(s)\<close> on a string follows the grammar of ECMAScript's StringToNumber over ASCII:
  surrounding white space is dropped, the empty string is 0, a literal is a hexadecimal,
  octal or binary integer, or a signed decimal with optional fraction and exponent, or a
  signed \<open>Infinity\<close>; anything else is NaN. The value is the exact real.
\<close>

definition is_ws :: "char \<Rightarrow> bool" where
  "is_ws c = (c \<in> set [CHR 0x09, CHR 0x0A, CHR 0x0B, CHR 0x0C, CHR 0x0D, CHR 0x20])"

definition trim :: "string \<Rightarrow> string" where
  "trim s = rev (dropWhile is_ws (rev (dropWhile is_ws s)))"

definition digit_val :: "char \<Rightarrow> nat option" where
  "digit_val c =
     (let n = (of_char c :: nat) in
      if 48 \<le> n \<and> n \<le> 57 then Some (n - 48)
      else if 97 \<le> n \<and> n \<le> 102 then Some (n - 87)
      else if 65 \<le> n \<and> n \<le> 70 then Some (n - 55)
      else None)"

definition is_digit_in :: "nat \<Rightarrow> char \<Rightarrow> bool" where
  "is_digit_in base c = (case digit_val c of Some d \<Rightarrow> d < base | None \<Rightarrow> False)"

definition digits_val :: "nat \<Rightarrow> string \<Rightarrow> nat" where
  "digits_val base ds =
     foldl (\<lambda>acc c. acc * base + (case digit_val c of Some d \<Rightarrow> d | None \<Rightarrow> 0)) 0 ds"

definition all_digits :: "nat \<Rightarrow> string \<Rightarrow> bool" where
  "all_digits base ds = (ds \<noteq> [] \<and> list_all (is_digit_in base) ds)"

definition starts_with :: "string \<Rightarrow> string \<Rightarrow> bool" where
  "starts_with p s = (take (length p) s = p)"

definition parse_exponent :: "string \<Rightarrow> int option" where
  "parse_exponent r =
     (if r = [] then Some 0
      else if hd r = CHR ''e'' \<or> hd r = CHR ''E'' then
        (let r1 = tl r in
         if starts_with ''+'' r1 then
           (if all_digits 10 (tl r1) then Some (int (digits_val 10 (tl r1))) else None)
         else if starts_with ''-'' r1 then
           (if all_digits 10 (tl r1) then Some (- int (digits_val 10 (tl r1))) else None)
         else if all_digits 10 r1 then Some (int (digits_val 10 r1)) else None)
      else None)"

definition pow10 :: "int \<Rightarrow> real" where
  "pow10 e = (if 0 \<le> e then 10 ^ nat e else 1 / 10 ^ nat (- e))"

definition parse_unsigned_decimal :: "string \<Rightarrow> jsnum" where
  "parse_unsigned_decimal s =
     (if s = ''Infinity'' then PInf
      else
        (let ip = takeWhile (is_digit_in 10) s;
             r1 = dropWhile (is_digit_in 10) s;
             fp = (if starts_with ''.'' r1 then takeWhile (is_digit_in 10) (tl r1) else []);
             r2 = (if starts_with ''.'' r1 then dropWhile (is_digit_in 10) (tl r1) else r1)
         in if ip = [] \<and> fp = [] then NaN
            else (case parse_exponent r2 of
                    None \<Rightarrow> NaN
                  | Some e \<Rightarrow>
                      Fin ((real (digits_val 10 ip) + real (digits_val 10 fp) / 10 ^ length fp)
                           * pow10 e))))"

definition StringToNumber :: "string \<Rightarrow> jsnum" where
  "StringToNumber s0 =
     (let s = trim s0 in
      if s = [] then Fin 0
      else if starts_with ''0x'' s \<or> starts_with ''0X'' s then
        (if all_digits 16 (drop 2 s) then Fin (real (digits_val 16 (drop 2 s))) else NaN)
      else if starts_with ''0o'' s \<or> starts_with ''0O'' s then
        (if all_digits 8 (drop 2 s) then Fin (real (digits_val 8 (drop 2 s))) else NaN)
      else if starts_with ''0b'' s \<or> starts_with ''0B'' s then
        (if all_digits 2 (drop 2 s) then Fin (real (digits_val 2 (drop 2 s))) else NaN)
      else if starts_with ''+'' s then parse_unsigned_decimal (tl s)
      else if starts_with ''-'' s then jneg (parse_unsigned_decimal (tl s))
      else parse_unsigned_decimal s)"

text \<open>\<open>Number(v)\<close>.\<close>

fun Number :: "jsval \<Rightarrow> jsnum" where
  "Number JUndefined = NaN"
| "Number JNull = Fin 0"
| "Number (JBool b) = (if b then Fin 1 else Fin 0)"
| "Number (JNum n) = n"
| "Number (JStr s) = StringToNumber s"

text \<open>\<open>Number(v) || 0\<close>, the coercion the program applies to every numeric provider field.\<close>

definition Number_or0 :: "jsval \<Rightarrow> jsnum" where
  "Number_or0 v = or0 (Number v)"

section \<open>Helpers\<close>

text \<open>\<open>const clamp = (n, min, max) => Math.min(Math.max(n, min), max)\<close>\<close>

definition clamp :: "jsnum \<Rightarrow> jsnum \<Rightarrow> jsnum \<Rightarrow> jsnum" where
  "clamp n lo hi = Math_min (Math_max n lo) hi"

text \<open>
  The configuration read from the environment when the module loads: the sample interval
  \<open>SAMPLE_INTERVAL_MS\<close> (1000 when unset) and the capacity \<open>HISTORY_POINTS\<close> of the rolling
  windows (60 when unset). The capacity is taken as a natural number; an environment that
  sets it to something else is outside the model.
\<close>

record config =
  SAMPLE_INTERVAL_MS :: jsnum
  HISTORY_POINTS :: nat

text \<open>
  \<open>pushRolling(arr, item)\<close> appends and then removes at most one element from the front.
  The array is mutated in place in the source; here the function returns its new contents,
  and the collector below writes them back to the store cell of the array.
\<close>

definition pushRolling :: "config \<Rightarrow> 'a list \<Rightarrow> 'a \<Rightarrow> 'a list" where
  "pushRolling cfg arr item =
     (let arr1 = arr @ [item] in
      if length arr1 > HISTORY_POINTS cfg then tl arr1 else arr1)"

text \<open>\<open>const bytesToMB = (b) => (typeof b === "number" ? b / (1024 * 1024) : 0)\<close>\<close>

definition bytesToMB :: "jsval \<Rightarrow> jsnum" where
  "bytesToMB b = (case b of JNum n \<Rightarrow> jdiv n (Fin (1024 * 1024)) | _ \<Rightarrow> Fin 0)"

text \<open>
  \<open>formatUptime(seconds)\<close> fills the template \<open>${days} Days, ${hours} Hours, ${mins} Minutes\<close>;
  the result is kept as the three numbers the template prints.
\<close>

record uptime_text =
  days :: jsnum
  hours :: jsnum
  mins :: jsnum

definition formatUptime :: "jsnum \<Rightarrow> uptime_text" where
  "formatUptime seconds =
     (let s = Math_max (Fin 0) (Math_floor (or0 seconds)) in
      \<lparr> days = Math_floor (jdiv s (Fin 86400)),
        hours = Math_floor (jdiv (jrem s (Fin 86400)) (Fin 3600)),
        mins = Math_floor (jdiv (jrem s (Fin 3600)) (Fin 60)) \<rparr>)"

section \<open>What the metrics provider returns\<close>

text \<open>
  Each read of the provider is a promise that rejects with a message or resolves. A
  resolved object may be \<open>null\<close> or \<open>undefined\<close> (\<open>None\<close>), and so may an element of a
  resolved array; a field that should hold an array holds one or is missing (\<open>None\<close>).
  Reading a property of \<open>null\<close> or \<open>undefined\<close> throws a TypeError.
\<close>

datatype 'a settled = Rejects string | Resolves 'a

datatype js_error = Rejection string | TypeError

definition await :: "'a settled \<Rightarrow> js_error + 'a" where
  "await pr = (case pr of Rejects m \<Rightarrow> Inl (Rejection m) | Resolves x \<Rightarrow> Inr x)"

text \<open>The object whose property is read: a TypeError when it is \<open>null\<close> or \<open>undefined\<close>.\<close>

definition deref :: "'a option \<Rightarrow> js_error + 'a" where
  "deref ob = (case ob of None \<Rightarrow> Inl TypeError | Some x \<Rightarrow> Inr x)"

text \<open>Sequencing of steps that may throw.\<close>

definition bnd :: "js_error + 'a \<Rightarrow> ('a \<Rightarrow> js_error + 'b) \<Rightarrow> js_error + 'b" where
  "bnd m f = (case m of Inl e \<Rightarrow> Inl e | Inr x \<Rightarrow> f x)"

text \<open>\<open>xs.map((x) => ... x.field ...)\<close> over an array that may hold \<open>null\<close> elements.\<close>

definition map_objects :: "('a \<Rightarrow> 'b) \<Rightarrow> 'a option list \<Rightarrow> js_error + 'b list" where
  "map_objects f xs =
     (case those xs of None \<Rightarrow> Inl TypeError | Some ys \<Rightarrow> Inr (map f ys))"

record proc_raw =
  proc_pid :: jsval
  proc_name :: jsval
  proc_command :: jsval
  proc_cpu :: jsval
  proc_mem_rss :: jsval

record processes_data =
  p_list :: "proc_raw option list option"

record fs_raw =
  d_size :: jsval
  d_used :: jsval

record disks_io =
  ioStats_rBytes :: jsval
  ioStats_wBytes :: jsval

record net_raw =
  n_rx_bytes :: jsval
  n_tx_bytes :: jsval

record cpu_raw =
  c_load :: jsval

record current_load =
  cpuLoad_cpus :: "cpu_raw option list option"
  cpuLoad_currentLoad :: jsval

record cpu_speed =
  cpuSpeed_min :: jsval
  cpuSpeed_avg :: jsval
  cpuSpeed_max :: jsval

record cpu_temperature =
  cpuTemp_main :: jsval
  cpuTemp_cores :: "jsval list option"

record mem_data =
  mem_total :: jsval
  mem_used :: jsval

record time_data =
  uptime_uptime :: jsval

text \<open>The nine reads of one collection cycle, in the order of the \<open>Promise.all\<close> array.\<close>

record provider =
  si_currentLoad :: "current_load option settled"
  si_cpuCurrentSpeed :: "cpu_speed option settled"
  si_cpuTemperature :: "cpu_temperature option settled"
  si_mem :: "mem_data option settled"
  si_fsSize :: "fs_raw option list option settled"
  si_disksIO :: "disks_io option settled"
  si_networkStats :: "net_raw option list option settled"
  si_time :: "time_data option settled"
  si_processes :: "processes_data option settled"

section \<open>In-memory cache and history\<close>

text \<open>Time-series points are objects \<open>{ t: epochMs, v: number }\<close>.\<close>

record point =
  point_t :: int
  point_v :: jsnum

text \<open>
  The eight arrays of the \<open>history\<close> object are created once and mutated in place. A payload
  holds the arrays themselves, not copies, so they live in a store indexed by array.
\<close>

datatype href =
  history_cpuLoad | history_cpuTempC | history_memUsedPercent | history_diskReadMBps
| history_diskWriteMBps | history_netDownMBps | history_netUpMBps | history_cpuAvgGHz

text \<open>The name of a process: a provider value, or the template \<open>pid:${proc.pid}\<close>.\<close>

datatype proc_label = Named jsval | PidLabel jsval

record process =
  pid :: jsval
  name :: proc_label
  cpuPercent :: jsnum
  ramMB :: jsnum

text \<open>
  The payload, with the nested objects flattened: \<open>memory_usedPercent\<close> is
  \<open>payload.memory.usedPercent\<close>. \<open>currentDateTimeISO\<close> is kept as the instant its text denotes.
\<close>

record payload =
  timestampMs :: int
  currentDateTimeISO :: int
  cpuLoad_overallPercent :: jsnum
  cpuLoad_perCorePercent :: "jsnum list"
  cpuLoad_history :: href
  cpuSpeed_minGHz :: jsnum
  cpuSpeed_avgGHz :: jsnum
  cpuSpeed_maxGHz :: jsnum
  cpuSpeed_historyAvgGHz :: href
  cpuTemp_mainC :: "jsnum option"
  cpuTemp_coreTempsC :: "jsnum list"
  cpuTemp_historyMainC :: href
  cpuTemp_targetC :: jsnum
  memory_totalGB :: jsnum
  memory_usedGB :: jsnum
  memory_usedPercent :: jsnum
  memory_freePercent :: jsnum
  memory_historyUsedPercent :: href
  diskUsage_usedPercent :: jsnum
  diskUsage_freePercent :: jsnum
  diskUsage_totalGB :: jsnum
  diskUsage_usedGB :: jsnum
  diskActivity_readMBps :: jsnum
  diskActivity_writeMBps :: jsnum
  diskActivity_historyReadMBps :: href
  diskActivity_historyWriteMBps :: href
  network_downMBps :: jsnum
  network_upMBps :: jsnum
  network_historyDownMBps :: href
  network_historyUpMBps :: href
  topProcesses :: "process list"
  uptime_uptimeSeconds :: jsnum
  uptime_uptimeHuman :: uptime_text
  meta_sampleIntervalMs :: jsnum
  meta_historyPoints :: nat

record disk_stats =
  rBytes :: jsnum
  wBytes :: jsnum
  disk_at :: int

record net_stats =
  rxBytes :: jsnum
  txBytes :: jsnum
  net_at :: int

text \<open>The module-level variables. \<open>lastPayload\<close> and the two baselines start as \<open>null\<close>.\<close>

record state =
  history :: "href \<Rightarrow> point list"
  lastPayload :: "payload option"
  prevDiskStats :: "disk_stats option"
  prevNetStats :: "net_stats option"
  prevSampleAt :: int

definition init_state :: "int \<Rightarrow> state" where
  "init_state loaded_at =
     \<lparr> history = (\<lambda>h. []), lastPayload = None, prevDiskStats = None, prevNetStats = None,
       prevSampleAt = loaded_at \<rparr>"

section \<open>Data collection\<close>

subsection \<open>\<open>getTopProcesses\<close>\<close>

text \<open>
  \<open>Array.prototype.sort\<close> is stable; with a comparator that orders its arguments
  consistently its result is the stable sorted arrangement, computed here by insertion:
  an element moves behind another only when the comparator is positive on the pair.
\<close>

fun insert_by :: "('a \<Rightarrow> 'a \<Rightarrow> jsnum) \<Rightarrow> 'a \<Rightarrow> 'a list \<Rightarrow> 'a list" where
  "insert_by cmp x [] = [x]"
| "insert_by cmp x (y # ys) =
     (if jgt (cmp x y) (Fin 0) then y # insert_by cmp x ys else x # y # ys)"

definition sort_by :: "('a \<Rightarrow> 'a \<Rightarrow> jsnum) \<Rightarrow> 'a list \<Rightarrow> 'a list" where
  "sort_by cmp xs = foldr (insert_by cmp) xs []"

definition normalize_proc :: "proc_raw \<Rightarrow> process" where
  "normalize_proc proc =
     \<lparr> pid = proc_pid proc,
       name = (if truthy (proc_name proc) then Named (proc_name proc)
               else if truthy (proc_command proc) then Named (proc_command proc)
               else PidLabel (proc_pid proc)),
       cpuPercent = clamp (Number_or0 (proc_cpu proc)) (Fin 0) (Fin 100),
       ramMB = Math_max (Fin 0)
                 (if truthy_num (Number (proc_mem_rss proc)) then bytesToMB (proc_mem_rss proc)
                  else Fin 0) \<rparr>"

definition by_cpu_desc :: "process \<Rightarrow> process \<Rightarrow> jsnum" where
  "by_cpu_desc a b = jsub (cpuPercent b) (cpuPercent a)"

definition getTopProcesses :: "processes_data option settled \<Rightarrow> js_error + process list" where
  "getTopProcesses processes =
     bnd (await processes) (\<lambda>p0.
     bnd (deref p0) (\<lambda>p.
     bnd (map_objects normalize_proc (case p_list p of None \<Rightarrow> [] | Some l \<Rightarrow> l)) (\<lambda>list.
     Inr (take 5 (sort_by by_cpu_desc list)))))"

subsection \<open>\<open>getDiskUsagePercent\<close>\<close>

record disk_usage =
  usedBytes :: jsnum
  totalBytes :: jsnum
  usedPercent :: jsnum

text \<open>The body of the loop over the file systems, on the pair \<open>(used, size)\<close>.\<close>

definition fs_step :: "jsnum \<times> jsnum \<Rightarrow> fs_raw option \<Rightarrow> jsnum \<times> jsnum" where
  "fs_step acc d0 =
     (case d0 of
        None \<Rightarrow> acc
      | Some d \<Rightarrow>
          (case (d_size d, d_used d) of
             (JNum sz, JNum us) \<Rightarrow> (jadd (fst acc) us, jadd (snd acc) sz)
           | _ \<Rightarrow> acc))"

definition getDiskUsagePercent :: "fs_raw option list option settled \<Rightarrow> js_error + disk_usage" where
  "getDiskUsagePercent fsSize =
     bnd (await fsSize) (\<lambda>fsList.
       (let (used, size) = foldl fs_step (Fin 0, Fin 0) (case fsList of None \<Rightarrow> [] | Some l \<Rightarrow> l)
        in Inr \<lparr> usedBytes = used, totalBytes = size,
                 usedPercent = (if jgt size (Fin 0)
                                then clamp (jmul (jdiv used size) (Fin 100)) (Fin 0) (Fin 100)
                                else Fin 0) \<rparr>))"

subsection \<open>\<open>getDiskThroughputMBps\<close> and \<open>getNetworkThroughputMBps\<close>\<close>

record disk_throughput =
  readMBps :: jsnum
  writeMBps :: jsnum

record net_throughput =
  downMBps :: jsnum
  upMBps :: jsnum

text \<open>
  Both functions return their rates and store the counters they read as the next baseline.
  When the read rejects or resolves to \<open>null\<close>, the function throws before that assignment.
\<close>

definition getDiskThroughputMBps ::
  "state \<Rightarrow> int \<Rightarrow> jsnum \<Rightarrow> disks_io option settled \<Rightarrow> (js_error + disk_throughput) \<times> state" where
  "getDiskThroughputMBps st now dtSec disksIO =
     (case bnd (await disksIO) deref of
        Inl e \<Rightarrow> (Inl e, st)
      | Inr ioStats \<Rightarrow>
          (let rB = Number_or0 (ioStats_rBytes ioStats);
               wB = Number_or0 (ioStats_wBytes ioStats);
               rates =
                 (case prevDiskStats st of
                    None \<Rightarrow> \<lparr> readMBps = Fin 0, writeMBps = Fin 0 \<rparr>
                  | Some prev \<Rightarrow>
                      if jgt dtSec (Fin 0) then
                        \<lparr> readMBps = Math_max (Fin 0)
                             (jdiv (bytesToMB (JNum (jsub rB (rBytes prev)))) dtSec),
                          writeMBps = Math_max (Fin 0)
                             (jdiv (bytesToMB (JNum (jsub wB (wBytes prev)))) dtSec) \<rparr>
                      else \<lparr> readMBps = Fin 0, writeMBps = Fin 0 \<rparr>)
           in (Inr rates,
               st\<lparr>prevDiskStats := Some \<lparr> rBytes = rB, wBytes = wB, disk_at = now \<rparr>\<rparr>)))"

text \<open>The body of the loop over the interfaces, on the pair \<open>(rxBytes, txBytes)\<close>.\<close>

definition net_step :: "jsnum \<times> jsnum \<Rightarrow> net_raw \<Rightarrow> jsnum \<times> jsnum" where
  "net_step acc n =
     (jadd (fst acc) (Number_or0 (n_rx_bytes n)), jadd (snd acc) (Number_or0 (n_tx_bytes n)))"

definition getNetworkThroughputMBps ::
  "state \<Rightarrow> int \<Rightarrow> jsnum \<Rightarrow> net_raw option list option settled
     \<Rightarrow> (js_error + net_throughput) \<times> state" where
  "getNetworkThroughputMBps st now dtSec networkStats =
     (case bnd (await networkStats)
             (\<lambda>nets. map_objects (\<lambda>n. n) (case nets of None \<Rightarrow> [] | Some l \<Rightarrow> l)) of
        Inl e \<Rightarrow> (Inl e, st)
      | Inr nets \<Rightarrow>
          (let (rx, tx) = foldl net_step (Fin 0, Fin 0) nets;
               rates =
                 (case prevNetStats st of
                    None \<Rightarrow> \<lparr> downMBps = Fin 0, upMBps = Fin 0 \<rparr>
                  | Some prev \<Rightarrow>
                      if jgt dtSec (Fin 0) then
                        \<lparr> downMBps = Math_max (Fin 0)
                             (jdiv (bytesToMB (JNum (jsub rx (rxBytes prev)))) dtSec),
                          upMBps = Math_max (Fin 0)
                             (jdiv (bytesToMB (JNum (jsub tx (txBytes prev)))) dtSec) \<rparr>
                      else \<lparr> downMBps = Fin 0, upMBps = Fin 0 \<rparr>)
           in (Inr rates,
               st\<lparr>prevNetStats := Some \<lparr> rxBytes = rx, txBytes = tx, net_at = now \<rparr>\<rparr>)))"

subsection \<open>\<open>collectSnapshot\<close>\<close>

text \<open>A temperature reading: the number itself when it is one and not negative, else \<open>null\<close>.\<close>

definition temp_of :: "jsval \<Rightarrow> jsnum option" where
  "temp_of x = (case x of JNum n \<Rightarrow> (if jge n (Fin 0) then Some n else None) | _ \<Rightarrow> None)"

text \<open>\<open>pushRolling(history.h, item)\<close>: the array \<open>h\<close> of the store is replaced by its new contents.\<close>

definition push_history :: "config \<Rightarrow> href \<Rightarrow> point \<Rightarrow> state \<Rightarrow> state" where
  "push_history cfg h item st =
     st\<lparr>history := (history st)(h := pushRolling cfg (history st h) item)\<rparr>"

text \<open>
  The part of \<open>collectSnapshot\<close> after the \<open>await\<close>, on the nine resolved values: it
  normalises them, appends to the history arrays, builds the payload and stores it in
  \<open>lastPayload\<close>. \<open>perCore\<close> is computed by the caller, where a \<open>null\<close> core throws.
\<close>

definition collectSnapshot_body ::
  "config \<Rightarrow> state \<Rightarrow> int \<Rightarrow> current_load \<Rightarrow> jsnum list \<Rightarrow> cpu_speed \<Rightarrow> cpu_temperature
     \<Rightarrow> mem_data \<Rightarrow> disk_usage \<Rightarrow> disk_throughput \<Rightarrow> net_throughput \<Rightarrow> time_data
     \<Rightarrow> process list \<Rightarrow> payload \<times> state" where
  "collectSnapshot_body cfg st now cpuLoad perCore cpuSpeed cpuTemp mem diskUsage diskThroughput
       netThroughput uptime topProcs =
     (let overall = clamp (Number_or0 (cpuLoad_currentLoad cpuLoad)) (Fin 0) (Fin 100);
          minGHz = Math_max (Fin 0) (Number_or0 (cpuSpeed_min cpuSpeed));
          avgGHz = Math_max (Fin 0) (Number_or0 (cpuSpeed_avg cpuSpeed));
          maxGHz = Math_max (Fin 0) (Number_or0 (cpuSpeed_max cpuSpeed));
          mainTemp = temp_of (cpuTemp_main cpuTemp);
          coreTemps = (case cpuTemp_cores cpuTemp of
                         Some cores \<Rightarrow> map the (filter (\<lambda>x. x \<noteq> None) (map temp_of cores))
                       | None \<Rightarrow> []);
          totalB = Number_or0 (mem_total mem);
          usedB = Number_or0 (mem_used mem);
          usedPct = (if jgt totalB (Fin 0)
                     then clamp (jmul (jdiv usedB totalB) (Fin 100)) (Fin 0) (Fin 100)
                     else Fin 0);
          diskUsedPercent = clamp (or0 (usedPercent diskUsage)) (Fin 0) (Fin 100);
          readR = Math_max (Fin 0) (or0 (readMBps diskThroughput));
          writeR = Math_max (Fin 0) (or0 (writeMBps diskThroughput));
          downR = Math_max (Fin 0) (or0 (downMBps netThroughput));
          upR = Math_max (Fin 0) (or0 (upMBps netThroughput));
          uptimeSeconds = Number_or0 (uptime_uptime uptime);
          st1 = push_history cfg history_cpuLoad \<lparr> point_t = now, point_v = overall \<rparr> st;
          st2 = (case mainTemp of
                   Some temp \<Rightarrow> push_history cfg history_cpuTempC \<lparr> point_t = now, point_v = temp \<rparr> st1
                 | None \<Rightarrow> st1);
          st3 = push_history cfg history_memUsedPercent \<lparr> point_t = now, point_v = usedPct \<rparr> st2;
          st4 = push_history cfg history_diskReadMBps \<lparr> point_t = now, point_v = readR \<rparr> st3;
          st5 = push_history cfg history_diskWriteMBps \<lparr> point_t = now, point_v = writeR \<rparr> st4;
          st6 = push_history cfg history_netDownMBps \<lparr> point_t = now, point_v = downR \<rparr> st5;
          st7 = push_history cfg history_netUpMBps \<lparr> point_t = now, point_v = upR \<rparr> st6;
          st8 = push_history cfg history_cpuAvgGHz \<lparr> point_t = now, point_v = avgGHz \<rparr> st7;
          pl = \<lparr> timestampMs = now,
                 currentDateTimeISO = now,
                 cpuLoad_overallPercent = overall,
                 cpuLoad_perCorePercent = perCore,
                 cpuLoad_history = history_cpuLoad,
                 cpuSpeed_minGHz = minGHz,
                 cpuSpeed_avgGHz = avgGHz,
                 cpuSpeed_maxGHz = maxGHz,
                 cpuSpeed_historyAvgGHz = history_cpuAvgGHz,
                 cpuTemp_mainC = mainTemp,
                 cpuTemp_coreTempsC = coreTemps,
                 cpuTemp_historyMainC = history_cpuTempC,
                 cpuTemp_targetC = Fin 80,
                 memory_totalGB = jdiv totalB (Fin (1024 ^ 3)),
                 memory_usedGB = jdiv usedB (Fin (1024 ^ 3)),
                 memory_usedPercent = usedPct,
                 memory_freePercent = clamp (jsub (Fin 100) usedPct) (Fin 0) (Fin 100),
                 memory_historyUsedPercent = history_memUsedPercent,
                 diskUsage_usedPercent = diskUsedPercent,
                 diskUsage_freePercent = clamp (jsub (Fin 100) diskUsedPercent) (Fin 0) (Fin 100),
                 diskUsage_totalGB = jdiv (or0 (totalBytes diskUsage)) (Fin (1024 ^ 3)),
                 diskUsage_usedGB = jdiv (or0 (usedBytes diskUsage)) (Fin (1024 ^ 3)),
                 diskActivity_readMBps = readR,
                 diskActivity_writeMBps = writeR,
                 diskActivity_historyReadMBps = history_diskReadMBps,
                 diskActivity_historyWriteMBps = history_diskWriteMBps,
                 network_downMBps = downR,
                 network_upMBps = upR,
                 network_historyDownMBps = history_netDownMBps,
                 network_historyUpMBps = history_netUpMBps,
                 topProcesses = topProcs,
                 uptime_uptimeSeconds = uptimeSeconds,
                 uptime_uptimeHuman = formatUptime uptimeSeconds,
                 meta_sampleIntervalMs = SAMPLE_INTERVAL_MS cfg,
                 meta_historyPoints = HISTORY_POINTS cfg \<rparr>
      in (pl, st8\<lparr>lastPayload := Some pl\<rparr>))"

text \<open>
  One call of \<open>collectSnapshot\<close> at clock reading \<open>now\<close>. The nine reads are started together;
  the two throughput functions update their baselines whatever the other reads do. When
  several reads fail, \<open>Promise.all\<close> rejects with the failure that settles first; the model
  takes the first in the order of the array. A failure leaves the function before any push
  and before the assignment of \<open>lastPayload\<close>. A cycle is one step of the model: its reads
  have settled before anything else runs.
\<close>

definition collectSnapshot :: "config \<Rightarrow> state \<Rightarrow> int \<Rightarrow> provider \<Rightarrow> (js_error + payload) \<times> state" where
  "collectSnapshot cfg st0 now si =
     (let dtSec = Math_max (Fin 0.001)
                    (jdiv (jsub (Fin (of_int now)) (Fin (of_int (prevSampleAt st0)))) (Fin 1000));
          st1 = st0\<lparr>prevSampleAt := now\<rparr>;
          (diskThroughputR, st2) = getDiskThroughputMBps st1 now dtSec (si_disksIO si);
          (netThroughputR, st3) = getNetworkThroughputMBps st2 now dtSec (si_networkStats si);
          outcome =
            bnd (await (si_currentLoad si)) (\<lambda>cpuLoad0.
            bnd (await (si_cpuCurrentSpeed si)) (\<lambda>cpuSpeed0.
            bnd (await (si_cpuTemperature si)) (\<lambda>cpuTemp0.
            bnd (await (si_mem si)) (\<lambda>mem0.
            bnd (getDiskUsagePercent (si_fsSize si)) (\<lambda>diskUsage.
            bnd diskThroughputR (\<lambda>diskThroughput.
            bnd netThroughputR (\<lambda>netThroughput.
            bnd (await (si_time si)) (\<lambda>uptime0.
            bnd (getTopProcesses (si_processes si)) (\<lambda>topProcs.
            bnd (deref cpuLoad0) (\<lambda>cpuLoad.
            bnd (map_objects (\<lambda>c. clamp (Number_or0 (c_load c)) (Fin 0) (Fin 100))
                   (case cpuLoad_cpus cpuLoad of None \<Rightarrow> [] | Some l \<Rightarrow> l)) (\<lambda>perCore.
            bnd (deref cpuSpeed0) (\<lambda>cpuSpeed.
            bnd (deref cpuTemp0) (\<lambda>cpuTemp.
            bnd (deref mem0) (\<lambda>mem.
            bnd (deref uptime0) (\<lambda>uptime.
            Inr (collectSnapshot_body cfg st3 now cpuLoad perCore cpuSpeed cpuTemp mem diskUsage
                   diskThroughput netThroughput uptime topProcs))))))))))))))))
      in (case outcome of
            Inl e \<Rightarrow> (Inl e, st3)
          | Inr (pl, st4) \<Rightarrow> (Inr pl, st4)))"

section \<open>Events, sockets and the sampling loop\<close>

text \<open>
  What is sent is the payload as it is serialised at the moment of the \<open>emit\<close>: its own
  fields together with the contents the history arrays have then.
\<close>

type_synonym snapshot = "payload \<times> (href \<Rightarrow> point list)"

definition serialise :: "state \<Rightarrow> payload \<Rightarrow> snapshot" where
  "serialise st pl = (pl, history st)"

text \<open>The history sequence an array field of a payload shows in a given state.\<close>

definition history_seen :: "state \<Rightarrow> href \<Rightarrow> point list" where
  "history_seen st h = history st h"

datatype message =
  health_update snapshot
| health_error string "js_error option"

datatype event = io_emit message | socket_emit nat message

text \<open>The one-second timer that republishes \<open>lastPayload\<close>.\<close>

definition heartbeat :: "state \<Rightarrow> event list" where
  "heartbeat st =
     (case lastPayload st of Some pl \<Rightarrow> [io_emit (health_update (serialise st pl))] | None \<Rightarrow> [])"

definition on_connection :: "state \<Rightarrow> nat \<Rightarrow> event list" where
  "on_connection st socket =
     (case lastPayload st of
        Some pl \<Rightarrow> [socket_emit socket (health_update (serialise st pl))]
      | None \<Rightarrow> [])"

definition on_health_request :: "state \<Rightarrow> nat \<Rightarrow> event list" where
  "on_health_request st socket =
     (case lastPayload st of
        Some pl \<Rightarrow> [socket_emit socket (health_update (serialise st pl))]
      | None \<Rightarrow> [socket_emit socket (health_error ''No data yet.'' None)])"

text \<open>The REST routes: the status code and the JSON body of the response.\<close>

datatype json_body =
  ok_true
| ok_false_message string
| snapshot_body snapshot

definition GET_healthz :: "nat \<times> json_body" where
  "GET_healthz = (200, ok_true)"

definition GET_api_health_latest :: "state \<Rightarrow> nat \<times> json_body" where
  "GET_api_health_latest st =
     (case lastPayload st of
        None \<Rightarrow> (503, ok_false_message ''No data yet.'')
      | Some pl \<Rightarrow> (200, snapshot_body (serialise st pl)))"

text \<open>
  The warm-up sample of \<open>startSampling\<close> (a failure is only logged) and one run of the
  interval callback (a failure is broadcast as \<open>health:error\<close>). The warm-up emits
  \<open>lastPayload\<close>, which is the payload \<open>collectSnapshot\<close> has just stored and returned.
\<close>

definition warm_up :: "config \<Rightarrow> state \<Rightarrow> int \<Rightarrow> provider \<Rightarrow> state \<times> event list" where
  "warm_up cfg st now si =
     (case collectSnapshot cfg st now si of
        (Inr pl, st1) \<Rightarrow> (st1, [io_emit (health_update (serialise st1 pl))])
      | (Inl e, st1) \<Rightarrow> (st1, []))"

definition sampling_tick :: "config \<Rightarrow> state \<Rightarrow> int \<Rightarrow> provider \<Rightarrow> state \<times> event list" where
  "sampling_tick cfg st now si =
     (case collectSnapshot cfg st now si of
        (Inr pl, st1) \<Rightarrow> (st1, [io_emit (health_update (serialise st1 pl))])
      | (Inl e, st1) \<Rightarrow> (st1, [io_emit (health_error ''Sampling failed'' (Some e))]))"

text \<open>A process whose \<open>cpuPercent\<close> is a finite number.\<close>

definition finite_cpu :: "process \<Rightarrow> bool" where
  "finite_cpu q = (case cpuPercent q of Fin r \<Rightarrow> True | _ \<Rightarrow> False)"

text \<open>
  The interval callback runs once per tick for as long as the process lives; a finite run of
  it is a list of ticks, each with the clock reading and what the provider returns then.
  \<open>startSampling\<close> is the warm-up sample followed by such a run.
\<close>

fun sampling_loop :: "config \<Rightarrow> state \<Rightarrow> (int \<times> provider) list \<Rightarrow> state \<times> event list" where
  "sampling_loop cfg st [] = (st, [])"
| "sampling_loop cfg st ((now, si) # ticks) =
     (case sampling_tick cfg st now si of
        (st1, ev) \<Rightarrow>
          (case sampling_loop cfg st1 ticks of (st2, evs) \<Rightarrow> (st2, ev @ evs)))"

definition startSampling ::
  "config \<Rightarrow> state \<Rightarrow> int \<Rightarrow> provider \<Rightarrow> (int \<times> provider) list \<Rightarrow> state \<times> event list" where
  "startSampling cfg st now si ticks =
     (case warm_up cfg st now si of
        (st1, ev) \<Rightarrow>
          (case sampling_loop cfg st1 ticks of (st2, evs) \<Rightarrow> (st2, ev @ evs)))"

section \<open>Ranges\<close>




section \<open>Readings that resolve\<close>

text \<open>
  A reading in which every promise resolves to an object and no array whose elements are
  dereferenced (cores, interfaces, processes) holds a \<open>null\<close> element. The file system list is
  guarded in the source (\<open>fsList || []\<close>, \<open>if (!d) continue\<close>), so it only has to resolve. Nothing
  is asked of the fields of the objects: they may be missing or of any type.
\<close>

definition resolves_object :: "'a option settled \<Rightarrow> bool" where
  "resolves_object pr = (case pr of Resolves (Some x) \<Rightarrow> True | _ \<Rightarrow> False)"

definition resolves :: "'a settled \<Rightarrow> bool" where
  "resolves pr = (case pr of Resolves x \<Rightarrow> True | Rejects m \<Rightarrow> False)"

definition no_null :: "'a option list option \<Rightarrow> bool" where
  "no_null arr = (case arr of None \<Rightarrow> True | Some l \<Rightarrow> list_all (\<lambda>x. x \<noteq> None) l)"

definition reading_resolves :: "provider \<Rightarrow> bool" where
  "reading_resolves si =
     ((case si_currentLoad si of Resolves (Some cl) \<Rightarrow> no_null (cpuLoad_cpus cl) | _ \<Rightarrow> False) \<and>
      resolves_object (si_cpuCurrentSpeed si) \<and>
      resolves_object (si_cpuTemperature si) \<and>
      resolves_object (si_mem si) \<and>
      resolves (si_fsSize si) \<and>
      resolves_object (si_disksIO si) \<and>
      (case si_networkStats si of Resolves nets \<Rightarrow> no_null nets | _ \<Rightarrow> False) \<and>
      resolves_object (si_time si) \<and>
      (case si_processes si of Resolves (Some p) \<Rightarrow> no_null (p_list p) | _ \<Rightarrow> False))"



section \<open>Sample readings\<close>

text \<open>
  Concrete provider readings on which the theorems below are exercised: a process list
  with a tie, an out-of-range load, a non-numeric load and non-numeric memory sizes, and a
  reading of the whole provider in which the temperature is unavailable (\<open>-1\<close>) and the
  per-core loads are out of range.
\<close>

definition sample_processes :: "proc_raw list" where
  "sample_processes =
     [\<lparr>proc_pid = JNum (Fin 1), proc_name = JStr ''init'', proc_command = JStr ''/sbin/init'',
       proc_cpu = JNum (Fin 10), proc_mem_rss = JNum (Fin 1048576)\<rparr>,
      \<lparr>proc_pid = JNum (Fin 2), proc_name = JStr ''node'', proc_command = JStr ''node'',
       proc_cpu = JNum (Fin 50), proc_mem_rss = JNum (Fin 2097152)\<rparr>,
      \<lparr>proc_pid = JNum (Fin 3), proc_name = JStr [], proc_command = JStr ''sh'',
       proc_cpu = JNum (Fin 50), proc_mem_rss = JStr ''1048576''\<rparr>,
      \<lparr>proc_pid = JNum (Fin 4), proc_name = JUndefined, proc_command = JUndefined,
       proc_cpu = JNum (Fin 150), proc_mem_rss = JUndefined\<rparr>,
      \<lparr>proc_pid = JNum (Fin 5), proc_name = JStr ''a'', proc_command = JUndefined,
       proc_cpu = JStr ''abc'', proc_mem_rss = JNum (Fin (- 1048576))\<rparr>,
      \<lparr>proc_pid = JNum (Fin 6), proc_name = JStr ''b'', proc_command = JUndefined,
       proc_cpu = JNum (Fin (- 5)), proc_mem_rss = JNull\<rparr>]"

definition sample_provider :: provider where
  "sample_provider =
     \<lparr> si_currentLoad = Resolves (Some
         \<lparr>cpuLoad_cpus = Some [Some \<lparr>c_load = JNum (Fin 150)\<rparr>, Some \<lparr>c_load = JNum (Fin (- 5))\<rparr>],
          cpuLoad_currentLoad = JNum (Fin 40)\<rparr>),
       si_cpuCurrentSpeed = Resolves (Some
         \<lparr>cpuSpeed_min = JNum (Fin 1), cpuSpeed_avg = JNum (Fin 2), cpuSpeed_max = JNum (Fin 3)\<rparr>),
       si_cpuTemperature = Resolves (Some
         \<lparr>cpuTemp_main = JNum (Fin (- 1)), cpuTemp_cores = Some [JNum (Fin 45), JNull]\<rparr>),
       si_mem = Resolves (Some
         \<lparr>mem_total = JNum (Fin 8589934592), mem_used = JNum (Fin 2147483648)\<rparr>),
       si_fsSize = Resolves (Some
         [Some \<lparr>d_size = JNum (Fin 1073741824), d_used = JNum (Fin 536870912)\<rparr>, None]),
       si_disksIO = Resolves (Some
         \<lparr>ioStats_rBytes = JNum (Fin 3000000), ioStats_wBytes = JNum (Fin 100)\<rparr>),
       si_networkStats = Resolves (Some
         [Some \<lparr>n_rx_bytes = JNum (Fin 2097152), n_tx_bytes = JUndefined\<rparr>]),
       si_time = Resolves (Some \<lparr>uptime_uptime = JNum (Fin 93784)\<rparr>),
       si_processes = Resolves (Some \<lparr>p_list = Some (map Some sample_processes)\<rparr>) \<rparr>"


definition sample_config :: config where
  "sample_config = \<lparr>SAMPLE_INTERVAL_MS = Fin 1000, HISTORY_POINTS = 3\<rparr>"


text \<open>The sample reading with the temperature read rejecting, and with the memory read rejecting.\<close>

definition no_sensor_provider :: provider where
  "no_sensor_provider = sample_provider\<lparr>si_cpuTemperature := Rejects ''no sensor''\<rparr>"

definition no_memory_provider :: provider where
  "no_memory_provider = sample_provider\<lparr>si_mem := Rejects ''mem failed''\<rparr>"


text \<open>Two successive cycles on the sample reading, starting from the freshly loaded module.\<close>

definition first_cycle :: "(js_error + payload) \<times> state" where
  "first_cycle = collectSnapshot sample_config (init_state 0) 1000 sample_provider"

definition second_cycle :: "(js_error + payload) \<times> state" where
  "second_cycle = collectSnapshot sample_config (snd first_cycle) 2000 sample_provider"

section \<open>Basic facts\<close>

lemma bnd_simps [simp]: "bnd (Inl e) f = Inl e" "bnd (Inr x) f = f x"
  by (simp_all add: bnd_def)

lemma await_simps [simp]: "await (Rejects m) = Inl (Rejection m)" "await (Resolves x) = Inr x"
  by (simp_all add: await_def)

lemma deref_simps [simp]: "deref None = Inl TypeError" "deref (Some x) = Inr x"
  by (simp_all add: deref_def)

lemma those_map_Some [simp]: "those (map Some xs) = Some xs"
  by (induction xs) simp_all

lemma map_objects_Some [simp]: "map_objects f (map Some xs) = Inr (map f xs)"
  by (simp add: map_objects_def)

lemma bnd_Inr_iff: "bnd m f = Inr y \<longleftrightarrow> (\<exists>x. m = Inr x \<and> f x = Inr y)"
  by (cases m) simp_all

lemma await_Inr_iff: "await pr = Inr x \<longleftrightarrow> pr = Resolves x"
  by (cases pr) auto

lemma deref_Inr_iff: "deref ob = Inr x \<longleftrightarrow> ob = Some x"
  by (cases ob) auto

lemma those_eq_Some: "those xs = Some ys \<longleftrightarrow> xs = map Some ys"
proof (induction xs arbitrary: ys)
  case Nil
  then show ?case by auto
next
  case (Cons x xs)
  then show ?case by (cases x) (auto split: option.splits)
qed

lemma map_objects_Inr_iff:
  "map_objects f xs = Inr ys \<longleftrightarrow> (\<exists>zs. xs = map Some zs \<and> ys = map f zs)"
  by (auto simp: map_objects_def those_eq_Some split: option.splits)

lemma collectSnapshot_success:
  assumes "collectSnapshot cfg st now si = (Inr pl, st')"
  obtains cpuLoad cpus cpuSpeed cpuTemp mem diskUsage diskThroughput netThroughput uptime
    topProcs dtSec st2 st3
  where "si_currentLoad si = Resolves (Some cpuLoad)"
    and "(case cpuLoad_cpus cpuLoad of None \<Rightarrow> [] | Some l \<Rightarrow> l) = map Some cpus"
    and "si_cpuCurrentSpeed si = Resolves (Some cpuSpeed)"
    and "si_cpuTemperature si = Resolves (Some cpuTemp)"
    and "si_mem si = Resolves (Some mem)"
    and "getDiskUsagePercent (si_fsSize si) = Inr diskUsage"
    and "getDiskThroughputMBps (st\<lparr>prevSampleAt := now\<rparr>) now dtSec (si_disksIO si)
           = (Inr diskThroughput, st2)"
    and "getNetworkThroughputMBps st2 now dtSec (si_networkStats si) = (Inr netThroughput, st3)"
    and "si_time si = Resolves (Some uptime)"
    and "getTopProcesses (si_processes si) = Inr topProcs"
    and "collectSnapshot_body cfg st3 now cpuLoad
           (map (\<lambda>c. clamp (Number_or0 (c_load c)) (Fin 0) (Fin 100)) cpus)
           cpuSpeed cpuTemp mem diskUsage diskThroughput netThroughput uptime topProcs = (pl, st')"
    and "dtSec = Math_max (Fin 0.001)
           (jdiv (jsub (Fin (of_int now)) (Fin (of_int (prevSampleAt st)))) (Fin 1000))"
  using assms
  unfolding collectSnapshot_def Let_def
  by (auto simp: bnd_Inr_iff await_Inr_iff deref_Inr_iff map_objects_Inr_iff
      split: prod.splits sum.splits)

section \<open>Rate derivation\<close>


lemma collect_dtSec_positive: "0 < max (0.001::real) x"
  by (simp add: max_def)





section \<open>The rolling window\<close>

lemma pushRolling_drop:
  "length arr \<le> HISTORY_POINTS cfg \<Longrightarrow>
   pushRolling cfg arr item = drop (Suc (length arr) - HISTORY_POINTS cfg) (arr @ [item])"
  by (cases arr) (auto simp: pushRolling_def Let_def Suc_diff_le)

lemma pushRolling_length:
  "length arr \<le> HISTORY_POINTS cfg \<Longrightarrow> length (pushRolling cfg arr item) \<le> HISTORY_POINTS cfg"
  by (auto simp: pushRolling_def Let_def)

lemma foldl_pushRolling:
  "length arr \<le> HISTORY_POINTS cfg \<Longrightarrow>
   foldl (pushRolling cfg) arr items =
     drop (length arr + length items - HISTORY_POINTS cfg) (arr @ items)"
proof (induction items arbitrary: arr)
  case Nil
  then show ?case by simp
next
  case (Cons x xs)
  let ?n = "HISTORY_POINTS cfg"
  have len: "length (pushRolling cfg arr x) \<le> ?n"
    using Cons.prems by (rule pushRolling_length)
  show ?case
  proof (cases "Suc (length arr) \<le> ?n")
    case True
    then have eq: "pushRolling cfg arr x = arr @ [x]"
      by (simp add: pushRolling_def Let_def)
    show ?thesis
      using Cons.IH [of "arr @ [x]"] True by (simp add: eq)
  next
    case False
    with Cons.prems have full: "length arr = ?n" by simp
    show ?thesis
    proof (cases arr)
      case Nil
      with full have n0: "?n = 0" by simp
      have eq: "pushRolling cfg [] x = []"
        using n0 by (simp add: pushRolling_def Let_def)
      show ?thesis using Cons.IH [of "[]"] Nil n0 by (simp add: eq)
    next
      case (Cons a as)
      have eq: "pushRolling cfg (a # as) x = as @ [x]"
        using Cons full by (simp add: pushRolling_def Let_def)
      have n: "?n = Suc (length as)" using Cons full by simp
      have l: "length (as @ [x]) \<le> ?n" using n by simp
      show ?thesis using Cons.IH [OF l] Cons by (simp add: eq n)
    qed
  qed
qed

text \<open>
  Claim C2. Starting from the empty array, any sequence of pushes through \<open>pushRolling\<close>
  leaves at most \<open>HISTORY_POINTS\<close> elements; once more than \<open>HISTORY_POINTS\<close> items have been
  pushed, the array holds exactly \<open>HISTORY_POINTS\<close> elements, the most recently pushed ones in
  the order of their insertion.
\<close>

theorem pushRolling_window:
  "length (foldl (pushRolling cfg) [] items) \<le> HISTORY_POINTS cfg \<and>
   (HISTORY_POINTS cfg < length items \<longrightarrow>
      length (foldl (pushRolling cfg) [] items) = HISTORY_POINTS cfg \<and>
      foldl (pushRolling cfg) [] items = drop (length items - HISTORY_POINTS cfg) items)"
  by (simp add: foldl_pushRolling)

text \<open>With capacity 3, five pushes leave the last three items.\<close>

theorem pushRolling_window_witness:
  "HISTORY_POINTS \<lparr>SAMPLE_INTERVAL_MS = Fin 1000, HISTORY_POINTS = 3\<rparr> < length [10, 20, 30, 40, 50 :: nat] \<and>
   foldl (pushRolling \<lparr>SAMPLE_INTERVAL_MS = Fin 1000, HISTORY_POINTS = 3\<rparr>) [] [10, 20, 30, 40, 50 :: nat]
     = [30, 40, 50]"
  using pushRolling_window [of "\<lparr>SAMPLE_INTERVAL_MS = Fin 1000, HISTORY_POINTS = 3\<rparr>" "[10, 20, 30, 40, 50 :: nat]"]
  by simp

section \<open>When a cycle completes\<close>

lemma no_null_iff: "no_null arr \<longleftrightarrow> (\<exists>ys. (case arr of None \<Rightarrow> [] | Some l \<Rightarrow> l) = map Some ys)"
proof (cases arr)
  case None
  then show ?thesis by (simp add: no_null_def)
next
  case (Some l)
  have "list_all (\<lambda>x. x \<noteq> None) l \<longleftrightarrow> (\<exists>ys. l = map Some ys)"
  proof (induction l)
    case Nil
    then show ?case by simp
  next
    case (Cons a l)
    then show ?case by (cases a) (auto simp: Cons_eq_map_conv)
  qed
  with Some show ?thesis by (simp add: no_null_def)
qed

lemma resolves_object_iff: "resolves_object pr \<longleftrightarrow> (\<exists>x. pr = Resolves (Some x))"
  by (auto simp: resolves_object_def split: settled.splits option.splits)

lemma resolves_iff: "resolves pr \<longleftrightarrow> (\<exists>x. pr = Resolves x)"
  by (auto simp: resolves_def split: settled.splits)

lemma getDiskUsagePercent_Inr_iff:
  "(\<exists>du. getDiskUsagePercent fsSize = Inr du) \<longleftrightarrow> resolves fsSize"
  by (cases fsSize) (auto simp: getDiskUsagePercent_def resolves_def Let_def split_beta)

lemma getTopProcesses_Inr_iff:
  "(\<exists>tp. getTopProcesses pr = Inr tp) \<longleftrightarrow>
   (case pr of Resolves (Some p) \<Rightarrow> no_null (p_list p) | _ \<Rightarrow> False)"
  by (auto simp: getTopProcesses_def bnd_Inr_iff await_Inr_iff deref_Inr_iff map_objects_Inr_iff
      no_null_iff split: settled.splits option.splits)

lemma getDiskThroughputMBps_Inr_iff:
  "(\<exists>r. fst (getDiskThroughputMBps st now dtSec pr) = Inr r) \<longleftrightarrow> resolves_object pr"
  by (auto simp: getDiskThroughputMBps_def resolves_object_def Let_def
      split: settled.splits option.splits)

lemma getNetworkThroughputMBps_Inr_iff:
  "(\<exists>r. fst (getNetworkThroughputMBps st now dtSec pr) = Inr r) \<longleftrightarrow>
   (case pr of Resolves nets \<Rightarrow> no_null nets | _ \<Rightarrow> False)"
  by (auto simp: getNetworkThroughputMBps_def Let_def split_beta map_objects_Inr_iff no_null_iff
      split: settled.splits sum.splits)

lemma collectSnapshot_completes:
  assumes "reading_resolves si"
  shows "\<exists>pl st'. collectSnapshot cfg st now si = (Inr pl, st')"
proof -
  let ?dt = "Math_max (Fin 0.001)
               (jdiv (jsub (Fin (of_int now)) (Fin (of_int (prevSampleAt st)))) (Fin 1000))"
  from assms obtain cl where cl: "si_currentLoad si = Resolves (Some cl)"
      and cpus0: "no_null (cpuLoad_cpus cl)"
    by (auto simp: reading_resolves_def split: settled.splits option.splits)
  from cpus0 obtain cpus where cpus: "(case cpuLoad_cpus cl of None \<Rightarrow> [] | Some l \<Rightarrow> l) = map Some cpus"
    by (auto simp: no_null_iff)
  from assms obtain cs ct m up where r:
    "si_cpuCurrentSpeed si = Resolves (Some cs)" "si_cpuTemperature si = Resolves (Some ct)"
    "si_mem si = Resolves (Some m)" "si_time si = Resolves (Some up)"
    by (auto simp: reading_resolves_def resolves_object_iff)
  from assms obtain du where du: "getDiskUsagePercent (si_fsSize si) = Inr du"
    using getDiskUsagePercent_Inr_iff [of "si_fsSize si"] by (auto simp: reading_resolves_def)
  from assms obtain tp where tp: "getTopProcesses (si_processes si) = Inr tp"
    using getTopProcesses_Inr_iff [of "si_processes si"] by (auto simp: reading_resolves_def)
  from assms obtain dthr st2 where
    d: "getDiskThroughputMBps (st\<lparr>prevSampleAt := now\<rparr>) now ?dt (si_disksIO si) = (Inr dthr, st2)"
    using getDiskThroughputMBps_Inr_iff [of "st\<lparr>prevSampleAt := now\<rparr>" now ?dt "si_disksIO si"]
    by (cases "getDiskThroughputMBps (st\<lparr>prevSampleAt := now\<rparr>) now ?dt (si_disksIO si)")
       (auto simp: reading_resolves_def)
  from assms obtain nthr st3 where
    n: "getNetworkThroughputMBps st2 now ?dt (si_networkStats si) = (Inr nthr, st3)"
    using getNetworkThroughputMBps_Inr_iff [of st2 now ?dt "si_networkStats si"]
    by (cases "getNetworkThroughputMBps st2 now ?dt (si_networkStats si)")
       (auto simp: reading_resolves_def)
  show ?thesis
    unfolding collectSnapshot_def Let_def d prod.case n
    by (simp add: cl cpus r du tp split_beta)
qed

lemma collectSnapshot_completes_only_if:
  assumes "collectSnapshot cfg st now si = (Inr pl, st')"
  shows "reading_resolves si"
proof (rule collectSnapshot_success [OF assms])
  fix cpuLoad cpus cpuSpeed cpuTemp mem diskUsage diskThroughput netThroughput uptime
    topProcs dtSec st2 st3
  assume "si_currentLoad si = Resolves (Some cpuLoad)"
    and "(case cpuLoad_cpus cpuLoad of None \<Rightarrow> [] | Some l \<Rightarrow> l) = map Some cpus"
    and "si_cpuCurrentSpeed si = Resolves (Some cpuSpeed)"
    and "si_cpuTemperature si = Resolves (Some cpuTemp)"
    and "si_mem si = Resolves (Some mem)"
    and "getDiskUsagePercent (si_fsSize si) = Inr diskUsage"
    and "getDiskThroughputMBps (st\<lparr>prevSampleAt := now\<rparr>) now dtSec (si_disksIO si)
           = (Inr diskThroughput, st2)"
    and "getNetworkThroughputMBps st2 now dtSec (si_networkStats si) = (Inr netThroughput, st3)"
    and "si_time si = Resolves (Some uptime)"
    and "getTopProcesses (si_processes si) = Inr topProcs"
  then show ?thesis
    using getDiskUsagePercent_Inr_iff [of "si_fsSize si"]
      getTopProcesses_Inr_iff [of "si_processes si"]
      getDiskThroughputMBps_Inr_iff [of "st\<lparr>prevSampleAt := now\<rparr>" now dtSec "si_disksIO si"]
      getNetworkThroughputMBps_Inr_iff [of st2 now dtSec "si_networkStats si"]
      no_null_iff [of "cpuLoad_cpus cpuLoad"]
    by (auto simp: reading_resolves_def resolves_object_iff)
qed

lemma sample_resolves: "reading_resolves sample_provider"
  by (simp add: reading_resolves_def sample_provider_def resolves_object_def resolves_def no_null_def
      list_all_iff)

lemma collectSnapshot_payload:
  assumes "collectSnapshot cfg st now si = (Inr pl, st')"
  obtains cl cpus cs ct m du dthr nthr up tp
  where "si_currentLoad si = Resolves (Some cl)"
    and "(case cpuLoad_cpus cl of None \<Rightarrow> [] | Some l \<Rightarrow> l) = map Some cpus"
    and "si_cpuCurrentSpeed si = Resolves (Some cs)"
    and "si_cpuTemperature si = Resolves (Some ct)"
    and "si_mem si = Resolves (Some m)"
    and "getDiskUsagePercent (si_fsSize si) = Inr du"
    and "si_time si = Resolves (Some up)"
    and "getTopProcesses (si_processes si) = Inr tp"
    and "cpuLoad_overallPercent pl = clamp (Number_or0 (cpuLoad_currentLoad cl)) (Fin 0) (Fin 100)"
    and "cpuLoad_perCorePercent pl =
           map (\<lambda>c. clamp (Number_or0 (c_load c)) (Fin 0) (Fin 100)) cpus"
    and "cpuSpeed_minGHz pl = Math_max (Fin 0) (Number_or0 (cpuSpeed_min cs))"
    and "cpuSpeed_avgGHz pl = Math_max (Fin 0) (Number_or0 (cpuSpeed_avg cs))"
    and "cpuSpeed_maxGHz pl = Math_max (Fin 0) (Number_or0 (cpuSpeed_max cs))"
    and "cpuTemp_mainC pl = temp_of (cpuTemp_main ct)"
    and "cpuTemp_coreTempsC pl =
           (case cpuTemp_cores ct of
              Some cores \<Rightarrow> map the (filter (\<lambda>x. x \<noteq> None) (map temp_of cores))
            | None \<Rightarrow> [])"
    and "cpuTemp_targetC pl = Fin 80"
    and "memory_totalGB pl = jdiv (Number_or0 (mem_total m)) (Fin (1024 ^ 3))"
    and "memory_usedGB pl = jdiv (Number_or0 (mem_used m)) (Fin (1024 ^ 3))"
    and "memory_usedPercent pl =
           (if jgt (Number_or0 (mem_total m)) (Fin 0)
            then clamp (jmul (jdiv (Number_or0 (mem_used m)) (Number_or0 (mem_total m))) (Fin 100))
                   (Fin 0) (Fin 100)
            else Fin 0)"
    and "memory_freePercent pl = clamp (jsub (Fin 100) (memory_usedPercent pl)) (Fin 0) (Fin 100)"
    and "diskUsage_usedPercent pl = clamp (or0 (usedPercent du)) (Fin 0) (Fin 100)"
    and "diskUsage_freePercent pl =
           clamp (jsub (Fin 100) (diskUsage_usedPercent pl)) (Fin 0) (Fin 100)"
    and "diskUsage_totalGB pl = jdiv (or0 (totalBytes du)) (Fin (1024 ^ 3))"
    and "diskUsage_usedGB pl = jdiv (or0 (usedBytes du)) (Fin (1024 ^ 3))"
    and "diskActivity_readMBps pl = Math_max (Fin 0) (or0 (readMBps (dthr :: disk_throughput)))"
    and "diskActivity_writeMBps pl = Math_max (Fin 0) (or0 (writeMBps dthr))"
    and "network_downMBps pl = Math_max (Fin 0) (or0 (downMBps (nthr :: net_throughput)))"
    and "network_upMBps pl = Math_max (Fin 0) (or0 (upMBps nthr))"
    and "topProcesses pl = tp"
    and "uptime_uptimeSeconds pl = Number_or0 (uptime_uptime up)"
proof (rule collectSnapshot_success [OF assms])
  fix cpuLoad cpus cpuSpeed cpuTemp mem diskUsage diskThroughput netThroughput uptime
    topProcs dtSec st2 st3
  assume a: "si_currentLoad si = Resolves (Some cpuLoad)"
    "(case cpuLoad_cpus cpuLoad of None \<Rightarrow> [] | Some l \<Rightarrow> l) = map Some cpus"
    "si_cpuCurrentSpeed si = Resolves (Some cpuSpeed)"
    "si_cpuTemperature si = Resolves (Some cpuTemp)"
    "si_mem si = Resolves (Some mem)"
    "getDiskUsagePercent (si_fsSize si) = Inr diskUsage"
    "si_time si = Resolves (Some uptime)"
    "getTopProcesses (si_processes si) = Inr topProcs"
  assume "collectSnapshot_body cfg st3 now cpuLoad
           (map (\<lambda>c. clamp (Number_or0 (c_load c)) (Fin 0) (Fin 100)) cpus)
           cpuSpeed cpuTemp mem diskUsage diskThroughput netThroughput uptime topProcs = (pl, st')"
  then have pl: "pl = fst (collectSnapshot_body cfg st3 now cpuLoad
           (map (\<lambda>c. clamp (Number_or0 (c_load c)) (Fin 0) (Fin 100)) cpus)
           cpuSpeed cpuTemp mem diskUsage diskThroughput netThroughput uptime topProcs)"
    by simp
  show ?thesis
    by (rule that [OF a, of diskThroughput netThroughput])
       (simp_all add: pl collectSnapshot_body_def Let_def)
qed

section \<open>The state after a cycle\<close>

text \<open>The throughput functions touch nothing but their own baseline.\<close>

lemma getDiskThroughputMBps_frame:
  "getDiskThroughputMBps st now dtSec pr = (r, st1) \<Longrightarrow>
   history st1 = history st \<and> lastPayload st1 = lastPayload st \<and>
   prevNetStats st1 = prevNetStats st \<and> prevSampleAt st1 = prevSampleAt st"
  by (auto simp: getDiskThroughputMBps_def Let_def split: sum.splits)

lemma getNetworkThroughputMBps_frame:
  "getNetworkThroughputMBps st now dtSec pr = (r, st1) \<Longrightarrow>
   history st1 = history st \<and> lastPayload st1 = lastPayload st \<and>
   prevDiskStats st1 = prevDiskStats st \<and> prevSampleAt st1 = prevSampleAt st"
  by (auto simp: getNetworkThroughputMBps_def Let_def split_beta split: sum.splits)

lemma collectSnapshot_throughput_states:
  obtains r2 st2 r3 st3 where
    "getDiskThroughputMBps (st\<lparr>prevSampleAt := now\<rparr>) now dtSec disksIO = (r2, st2)"
    "getNetworkThroughputMBps st2 now dtSec networkStats = (r3, st3)"
    "history st3 = history st" "lastPayload st3 = lastPayload st" "prevSampleAt st3 = now"
proof -
  obtain r2 st2 where d: "getDiskThroughputMBps (st\<lparr>prevSampleAt := now\<rparr>) now dtSec disksIO = (r2, st2)"
    by (cases "getDiskThroughputMBps (st\<lparr>prevSampleAt := now\<rparr>) now dtSec disksIO")
  obtain r3 st3 where n: "getNetworkThroughputMBps st2 now dtSec networkStats = (r3, st3)"
    by (cases "getNetworkThroughputMBps st2 now dtSec networkStats")
  from getDiskThroughputMBps_frame [OF d] getNetworkThroughputMBps_frame [OF n]
  have "history st3 = history st" "lastPayload st3 = lastPayload st" "prevSampleAt st3 = now"
    by simp_all
  with d n show ?thesis by (rule that)
qed

text \<open>A cycle that fails leaves the history arrays and \<open>lastPayload\<close> as they were.\<close>

lemma collectSnapshot_failure_frame:
  assumes "collectSnapshot cfg st now si = (Inl e, st')"
  shows "history st' = history st \<and> lastPayload st' = lastPayload st"
proof -
  let ?dt = "Math_max (Fin 0.001)
               (jdiv (jsub (Fin (of_int now)) (Fin (of_int (prevSampleAt st)))) (Fin 1000))"
  obtain r2 st2 r3 st3 where
    d: "getDiskThroughputMBps (st\<lparr>prevSampleAt := now\<rparr>) now ?dt (si_disksIO si) = (r2, st2)"
    and n: "getNetworkThroughputMBps st2 now ?dt (si_networkStats si) = (r3, st3)"
    and fr: "history st3 = history st" "lastPayload st3 = lastPayload st"
    by (rule collectSnapshot_throughput_states)
  from assms have "st' = st3"
    unfolding collectSnapshot_def Let_def d prod.case n
    by (auto split: sum.splits prod.splits)
  with fr show ?thesis by simp
qed

lemma push_history_simps:
  "history (push_history cfg h item st) h' =
     (if h' = h then pushRolling cfg (history st h) item else history st h')"
  "lastPayload (push_history cfg h item st) = lastPayload st"
  "prevDiskStats (push_history cfg h item st) = prevDiskStats st"
  "prevNetStats (push_history cfg h item st) = prevNetStats st"
  "prevSampleAt (push_history cfg h item st) = prevSampleAt st"
  by (simp_all add: push_history_def)

lemma collectSnapshot_body_state:
  assumes "collectSnapshot_body cfg st now cl pc cs ct m du dthr nthr up tp = (pl, st')"
  shows "lastPayload st' = Some pl"
    and "prevSampleAt st' = prevSampleAt st"
    and "history st' history_cpuLoad =
           pushRolling cfg (history st history_cpuLoad)
             \<lparr>point_t = now, point_v = cpuLoad_overallPercent pl\<rparr>"
    and "history st' history_cpuTempC =
           (case cpuTemp_mainC pl of
              Some temp \<Rightarrow> pushRolling cfg (history st history_cpuTempC)
                             \<lparr>point_t = now, point_v = temp\<rparr>
            | None \<Rightarrow> history st history_cpuTempC)"
    and "history st' history_memUsedPercent =
           pushRolling cfg (history st history_memUsedPercent)
             \<lparr>point_t = now, point_v = memory_usedPercent pl\<rparr>"
    and "history st' history_diskReadMBps =
           pushRolling cfg (history st history_diskReadMBps)
             \<lparr>point_t = now, point_v = diskActivity_readMBps pl\<rparr>"
    and "history st' history_diskWriteMBps =
           pushRolling cfg (history st history_diskWriteMBps)
             \<lparr>point_t = now, point_v = diskActivity_writeMBps pl\<rparr>"
    and "history st' history_netDownMBps =
           pushRolling cfg (history st history_netDownMBps)
             \<lparr>point_t = now, point_v = network_downMBps pl\<rparr>"
    and "history st' history_netUpMBps =
           pushRolling cfg (history st history_netUpMBps)
             \<lparr>point_t = now, point_v = network_upMBps pl\<rparr>"
    and "history st' history_cpuAvgGHz =
           pushRolling cfg (history st history_cpuAvgGHz)
             \<lparr>point_t = now, point_v = cpuSpeed_avgGHz pl\<rparr>"
proof -
  from assms have pl: "pl = fst (collectSnapshot_body cfg st now cl pc cs ct m du dthr nthr up tp)"
    and st': "st' = snd (collectSnapshot_body cfg st now cl pc cs ct m du dthr nthr up tp)"
    by simp_all
  show "lastPayload st' = Some pl"
    by (simp add: pl st' collectSnapshot_body_def Let_def)
  show "prevSampleAt st' = prevSampleAt st"
    by (simp add: st' collectSnapshot_body_def Let_def push_history_simps split: option.splits)
  show "history st' history_cpuLoad =
           pushRolling cfg (history st history_cpuLoad)
             \<lparr>point_t = now, point_v = cpuLoad_overallPercent pl\<rparr>"
    by (simp add: pl st' collectSnapshot_body_def Let_def push_history_simps split: option.splits)
  show "history st' history_cpuTempC =
           (case cpuTemp_mainC pl of
              Some temp \<Rightarrow> pushRolling cfg (history st history_cpuTempC)
                             \<lparr>point_t = now, point_v = temp\<rparr>
            | None \<Rightarrow> history st history_cpuTempC)"
    by (simp add: pl st' collectSnapshot_body_def Let_def push_history_simps split: option.splits)
  show "history st' history_memUsedPercent =
           pushRolling cfg (history st history_memUsedPercent)
             \<lparr>point_t = now, point_v = memory_usedPercent pl\<rparr>"
    by (simp add: pl st' collectSnapshot_body_def Let_def push_history_simps split: option.splits)
  show "history st' history_diskReadMBps =
           pushRolling cfg (history st history_diskReadMBps)
             \<lparr>point_t = now, point_v = diskActivity_readMBps pl\<rparr>"
    by (simp add: pl st' collectSnapshot_body_def Let_def push_history_simps split: option.splits)
  show "history st' history_diskWriteMBps =
           pushRolling cfg (history st history_diskWriteMBps)
             \<lparr>point_t = now, point_v = diskActivity_writeMBps pl\<rparr>"
    by (simp add: pl st' collectSnapshot_body_def Let_def push_history_simps split: option.splits)
  show "history st' history_netDownMBps =
           pushRolling cfg (history st history_netDownMBps)
             \<lparr>point_t = now, point_v = network_downMBps pl\<rparr>"
    by (simp add: pl st' collectSnapshot_body_def Let_def push_history_simps split: option.splits)
  show "history st' history_netUpMBps =
           pushRolling cfg (history st history_netUpMBps)
             \<lparr>point_t = now, point_v = network_upMBps pl\<rparr>"
    by (simp add: pl st' collectSnapshot_body_def Let_def push_history_simps split: option.splits)
  show "history st' history_cpuAvgGHz =
           pushRolling cfg (history st history_cpuAvgGHz)
             \<lparr>point_t = now, point_v = cpuSpeed_avgGHz pl\<rparr>"
    by (simp add: pl st' collectSnapshot_body_def Let_def push_history_simps split: option.splits)
qed

lemma collectSnapshot_state:
  assumes "collectSnapshot cfg st now si = (Inr pl, st')"
  shows "lastPayload st' = Some pl"
    and "prevSampleAt st' = now"
    and "history st' history_cpuLoad =
           pushRolling cfg (history st history_cpuLoad)
             \<lparr>point_t = now, point_v = cpuLoad_overallPercent pl\<rparr>"
    and "history st' history_cpuTempC =
           (case cpuTemp_mainC pl of
              Some temp \<Rightarrow> pushRolling cfg (history st history_cpuTempC)
                             \<lparr>point_t = now, point_v = temp\<rparr>
            | None \<Rightarrow> history st history_cpuTempC)"
    and "history st' history_memUsedPercent =
           pushRolling cfg (history st history_memUsedPercent)
             \<lparr>point_t = now, point_v = memory_usedPercent pl\<rparr>"
    and "history st' history_diskReadMBps =
           pushRolling cfg (history st history_diskReadMBps)
             \<lparr>point_t = now, point_v = diskActivity_readMBps pl\<rparr>"
    and "history st' history_diskWriteMBps =
           pushRolling cfg (history st history_diskWriteMBps)
             \<lparr>point_t = now, point_v = diskActivity_writeMBps pl\<rparr>"
    and "history st' history_netDownMBps =
           pushRolling cfg (history st history_netDownMBps)
             \<lparr>point_t = now, point_v = network_downMBps pl\<rparr>"
    and "history st' history_netUpMBps =
           pushRolling cfg (history st history_netUpMBps)
             \<lparr>point_t = now, point_v = network_upMBps pl\<rparr>"
    and "history st' history_cpuAvgGHz =
           pushRolling cfg (history st history_cpuAvgGHz)
             \<lparr>point_t = now, point_v = cpuSpeed_avgGHz pl\<rparr>"
proof -
  have "\<exists>st3 cl pc cs ct m du dthr nthr up tp.
          history st3 = history st \<and> prevSampleAt st3 = now \<and>
          collectSnapshot_body cfg st3 now cl pc cs ct m du dthr nthr up tp = (pl, st')"
  proof (rule collectSnapshot_success [OF assms])
    fix cpuLoad cpus cpuSpeed cpuTemp mem diskUsage diskThroughput netThroughput uptime
      topProcs dtSec st2 st3
    assume d: "getDiskThroughputMBps (st\<lparr>prevSampleAt := now\<rparr>) now dtSec (si_disksIO si)
           = (Inr diskThroughput, st2)"
      and n: "getNetworkThroughputMBps st2 now dtSec (si_networkStats si) = (Inr netThroughput, st3)"
      and b: "collectSnapshot_body cfg st3 now cpuLoad
           (map (\<lambda>c. clamp (Number_or0 (c_load c)) (Fin 0) (Fin 100)) cpus)
           cpuSpeed cpuTemp mem diskUsage diskThroughput netThroughput uptime topProcs = (pl, st')"
    from getDiskThroughputMBps_frame [OF d] getNetworkThroughputMBps_frame [OF n]
    have "history st3 = history st" "prevSampleAt st3 = now" by simp_all
    with b show ?thesis by blast
  qed
  then obtain st3 cl pc cs ct m du dthr nthr up tp
    where h: "history st3 = history st" and p: "prevSampleAt st3 = now"
      and b: "collectSnapshot_body cfg st3 now cl pc cs ct m du dthr nthr up tp = (pl, st')"
    by blast
  note s = collectSnapshot_body_state [OF b, unfolded h p]
  show "lastPayload st' = Some pl" by (rule s)
  show "prevSampleAt st' = now" by (rule s)
  show "history st' history_cpuLoad =
           pushRolling cfg (history st history_cpuLoad)
             \<lparr>point_t = now, point_v = cpuLoad_overallPercent pl\<rparr>" by (rule s)
  show "history st' history_cpuTempC =
           (case cpuTemp_mainC pl of
              Some temp \<Rightarrow> pushRolling cfg (history st history_cpuTempC)
                             \<lparr>point_t = now, point_v = temp\<rparr>
            | None \<Rightarrow> history st history_cpuTempC)" by (rule s)
  show "history st' history_memUsedPercent =
           pushRolling cfg (history st history_memUsedPercent)
             \<lparr>point_t = now, point_v = memory_usedPercent pl\<rparr>" by (rule s)
  show "history st' history_diskReadMBps =
           pushRolling cfg (history st history_diskReadMBps)
             \<lparr>point_t = now, point_v = diskActivity_readMBps pl\<rparr>" by (rule s)
  show "history st' history_diskWriteMBps =
           pushRolling cfg (history st history_diskWriteMBps)
             \<lparr>point_t = now, point_v = diskActivity_writeMBps pl\<rparr>" by (rule s)
  show "history st' history_netDownMBps =
           pushRolling cfg (history st history_netDownMBps)
             \<lparr>point_t = now, point_v = network_downMBps pl\<rparr>" by (rule s)
  show "history st' history_netUpMBps =
           pushRolling cfg (history st history_netUpMBps)
             \<lparr>point_t = now, point_v = network_upMBps pl\<rparr>" by (rule s)
  show "history st' history_cpuAvgGHz =
           pushRolling cfg (history st history_cpuAvgGHz)
             \<lparr>point_t = now, point_v = cpuSpeed_avgGHz pl\<rparr>" by (rule s)
qed

section \<open>Top processes\<close>

lemma or0_not_NaN: "or0 n \<noteq> NaN"
  by (simp add: or0_def truthy_num_def)

lemma clamp_percent:
  "n \<noteq> NaN \<Longrightarrow> \<exists>r. clamp n (Fin 0) (Fin 100) = Fin r \<and> 0 \<le> r \<and> r \<le> 100"
  by (cases n) (auto simp: clamp_def Math_max_def Math_min_def)

lemma cpuPercent_normalize_proc:
  "\<exists>r. cpuPercent (normalize_proc proc) = Fin r \<and> 0 \<le> r \<and> r \<le> 100"
  by (simp add: normalize_proc_def Number_or0_def clamp_percent or0_not_NaN)

lemma bytesToMB_not_NaN: "b \<noteq> JNum NaN \<Longrightarrow> bytesToMB b \<noteq> NaN"
  by (cases b) (auto simp: bytesToMB_def elim: jdiv.elims)

lemma Math_max_0_nonneg: "x \<noteq> NaN \<Longrightarrow> jle (Fin 0) (Math_max (Fin 0) x)"
  by (cases x) (auto simp: Math_max_def)

lemma ramMB_normalize_proc: "jle (Fin 0) (ramMB (normalize_proc proc))"
proof -
  have "(if truthy_num (Number (proc_mem_rss proc)) then bytesToMB (proc_mem_rss proc) else Fin 0) \<noteq> NaN"
    by (cases "proc_mem_rss proc") (auto simp: truthy_num_def bytesToMB_not_NaN)
  then show ?thesis
    by (simp add: normalize_proc_def Math_max_0_nonneg)
qed

lemma mset_insert_by: "mset (insert_by cmp x ys) = add_mset x (mset ys)"
  by (induction ys) auto

lemma mset_sort_by: "mset (sort_by cmp xs) = mset xs"
  by (induction xs) (auto simp: sort_by_def mset_insert_by)

lemma set_insert_by: "set (insert_by cmp x ys) = insert x (set ys)"
  by (induction ys) auto

lemma set_sort_by: "set (sort_by cmp xs) = set xs"
  by (induction xs) (auto simp: sort_by_def set_insert_by)

lemma by_cpu_desc_pos:
  "cpuPercent a = Fin ra \<Longrightarrow> cpuPercent b = Fin rb \<Longrightarrow>
   jgt (by_cpu_desc a b) (Fin 0) = (ra < rb)"
  by (simp add: by_cpu_desc_def jsub_def jgt_def)

lemma finite_cpu_iff: "finite_cpu q \<longleftrightarrow> (\<exists>r. cpuPercent q = Fin r)"
  by (cases "cpuPercent q") (simp_all add: finite_cpu_def)

lemma sorted_insert_by:
  assumes "finite_cpu x" "\<forall>y\<in>set ys. finite_cpu y"
    and "sorted_wrt (\<lambda>a b. jge (cpuPercent a) (cpuPercent b)) ys"
  shows "sorted_wrt (\<lambda>a b. jge (cpuPercent a) (cpuPercent b)) (insert_by by_cpu_desc x ys)"
  using assms
proof (induction ys)
  case Nil
  then show ?case by simp
next
  case (Cons y ys)
  from Cons.prems obtain rx ry where k: "cpuPercent x = Fin rx" "cpuPercent y = Fin ry"
    by (auto simp: finite_cpu_iff)
  show ?case
  proof (cases "rx < ry")
    case True
    then have "insert_by by_cpu_desc x (y # ys) = y # insert_by by_cpu_desc x ys"
      using k by (simp add: by_cpu_desc_pos)
    moreover have "sorted_wrt (\<lambda>a b. jge (cpuPercent a) (cpuPercent b)) (insert_by by_cpu_desc x ys)"
      using Cons by simp
    moreover have "\<forall>z\<in>set (insert_by by_cpu_desc x ys). jge (cpuPercent y) (cpuPercent z)"
      using Cons.prems True k by (auto simp: set_insert_by jge_def)
    ultimately show ?thesis by (simp del: insert_by.simps)
  next
    case False
    then have eq: "insert_by by_cpu_desc x (y # ys) = x # y # ys"
      using k by (simp add: by_cpu_desc_pos)
    have "jge (cpuPercent x) (cpuPercent z)" if "z \<in> set (y # ys)" for z
    proof -
      from that Cons.prems(2) obtain rz where z: "cpuPercent z = Fin rz"
        by (auto simp: finite_cpu_iff)
      have "jge (cpuPercent y) (cpuPercent z) \<or> z = y"
        using that Cons.prems(3) by auto
      then have "rz \<le> ry" using k z by (auto simp: jge_def)
      with False show ?thesis using k z by (simp add: jge_def)
    qed
    then show ?thesis unfolding eq using Cons.prems(3) by simp
  qed
qed

lemma sorted_sort_by:
  "\<forall>y\<in>set xs. finite_cpu y \<Longrightarrow>
   sorted_wrt (\<lambda>a b. jge (cpuPercent a) (cpuPercent b)) (sort_by by_cpu_desc xs)"
proof (induction xs)
  case Nil
  then show ?case by (simp add: sort_by_def)
next
  case (Cons x xs)
  have "sort_by by_cpu_desc (x # xs) = insert_by by_cpu_desc x (sort_by by_cpu_desc xs)"
    by (simp add: sort_by_def)
  then show ?case
    using Cons sorted_insert_by [of x "sort_by by_cpu_desc xs"] by (simp add: set_sort_by)
qed

lemma filter_insert_by:
  assumes "finite_cpu x" "\<forall>y\<in>set ys. finite_cpu y"
  shows "filter (\<lambda>q. cpuPercent q = c) (insert_by by_cpu_desc x ys) =
         (if cpuPercent x = c then x # filter (\<lambda>q. cpuPercent q = c) ys
          else filter (\<lambda>q. cpuPercent q = c) ys)"
  using assms
proof (induction ys)
  case Nil
  then show ?case by simp
next
  case (Cons y ys)
  from Cons.prems obtain rx ry where k: "cpuPercent x = Fin rx" "cpuPercent y = Fin ry"
    by (auto simp: finite_cpu_iff)
  show ?case
  proof (cases "rx < ry")
    case True
    then show ?thesis using Cons k by (auto simp: by_cpu_desc_pos)
  next
    case False
    then show ?thesis using k by (simp add: by_cpu_desc_pos)
  qed
qed

lemma filter_sort_by:
  "\<forall>y\<in>set xs. finite_cpu y \<Longrightarrow>
   filter (\<lambda>q. cpuPercent q = c) (sort_by by_cpu_desc xs) = filter (\<lambda>q. cpuPercent q = c) xs"
proof (induction xs)
  case Nil
  then show ?case by (simp add: sort_by_def)
next
  case (Cons x xs)
  have "sort_by by_cpu_desc (x # xs) = insert_by by_cpu_desc x (sort_by by_cpu_desc xs)"
    by (simp add: sort_by_def)
  then show ?case
    using Cons filter_insert_by [of x "sort_by by_cpu_desc xs" c] by (simp add: set_sort_by)
qed

lemma body_topProcesses:
  "collectSnapshot_body cfg st now cl pc cs ct m du dthr nthr up tp = (pl, st') \<Longrightarrow>
   topProcesses pl = tp"
  by (auto simp: collectSnapshot_body_def Let_def)

lemma getTopProcesses_Inr:
  assumes "getTopProcesses pr = Inr tops"
  obtains p raw where "pr = Resolves (Some p)"
    and "(case p_list p of None \<Rightarrow> [] | Some l \<Rightarrow> l) = map Some raw"
    and "tops = take 5 (sort_by by_cpu_desc (map normalize_proc raw))"
  using assms unfolding getTopProcesses_def
  by (auto simp: bnd_Inr_iff await_Inr_iff deref_Inr_iff map_objects_Inr_iff)

lemma finite_cpu_normalize_proc: "finite_cpu (normalize_proc proc)"
  using cpuPercent_normalize_proc [of proc] by (auto simp: finite_cpu_iff)

text \<open>
  Claim C9. In the payload of every cycle that completes, \<open>topProcesses\<close> is the first five
  entries of the normalised provider list sorted by \<open>cpuPercent\<close>, larger first: the sorted
  list is a rearrangement of the provider list, it is descending, and for every value of
  \<open>cpuPercent\<close> the entries with that value keep the order the provider gave them. There are at
  most five entries, each with \<open>cpuPercent\<close> in [0, 100] and \<open>ramMB\<close> at least 0.
\<close>

theorem topProcesses_top5:
  assumes "collectSnapshot cfg st now si = (Inr pl, st')"
  shows "\<exists>p raw.
      si_processes si = Resolves (Some p) \<and>
      (case p_list p of None \<Rightarrow> [] | Some l \<Rightarrow> l) = map Some raw \<and>
      topProcesses pl = take 5 (sort_by by_cpu_desc (map normalize_proc raw)) \<and>
      mset (sort_by by_cpu_desc (map normalize_proc raw)) = mset (map normalize_proc raw) \<and>
      sorted_wrt (\<lambda>a b. jge (cpuPercent a) (cpuPercent b))
        (sort_by by_cpu_desc (map normalize_proc raw)) \<and>
      (\<forall>c. filter (\<lambda>q. cpuPercent q = c) (sort_by by_cpu_desc (map normalize_proc raw)) =
           filter (\<lambda>q. cpuPercent q = c) (map normalize_proc raw)) \<and>
      length (topProcesses pl) \<le> 5 \<and>
      sorted_wrt (\<lambda>a b. jge (cpuPercent a) (cpuPercent b)) (topProcesses pl) \<and>
      (\<forall>q\<in>set (topProcesses pl).
          jle (Fin 0) (cpuPercent q) \<and> jle (cpuPercent q) (Fin 100) \<and> jle (Fin 0) (ramMB q))"
proof (rule collectSnapshot_success [OF assms])
  fix cl cpus cs ct m du dthr nthr up tp dtSec st2 st3
  assume tp: "getTopProcesses (si_processes si) = Inr tp"
    and body: "collectSnapshot_body cfg st3 now cl
           (map (\<lambda>c. clamp (Number_or0 (c_load c)) (Fin 0) (Fin 100)) cpus)
           cs ct m du dthr nthr up tp = (pl, st')"
  from body have top: "topProcesses pl = tp"
    by (rule body_topProcesses)
  from tp show ?thesis
  proof (rule getTopProcesses_Inr)
    fix p raw
    assume p: "si_processes si = Resolves (Some p)"
      and raw: "(case p_list p of None \<Rightarrow> [] | Some l \<Rightarrow> l) = map Some raw"
      and tops: "tp = take 5 (sort_by by_cpu_desc (map normalize_proc raw))"
  let ?list = "map normalize_proc raw"
  let ?srt = "sort_by by_cpu_desc ?list"
  have fin: "\<forall>y\<in>set ?list. finite_cpu y"
    by (auto simp: finite_cpu_normalize_proc)
  have srt: "sorted_wrt (\<lambda>a b. jge (cpuPercent a) (cpuPercent b)) ?srt"
    using fin by (rule sorted_sort_by)
  have stable: "\<forall>c. filter (\<lambda>q. cpuPercent q = c) ?srt = filter (\<lambda>q. cpuPercent q = c) ?list"
    using fin by (simp add: filter_sort_by)
  have srt5: "sorted_wrt (\<lambda>a b. jge (cpuPercent a) (cpuPercent b)) (take 5 ?srt)"
    using srt by (rule sorted_wrt_take)
  have rng: "jle (Fin 0) (cpuPercent q) \<and> jle (cpuPercent q) (Fin 100) \<and> jle (Fin 0) (ramMB q)"
    if "q \<in> set (take 5 ?srt)" for q
  proof -
    from that have "q \<in> set ?srt" by (rule in_set_takeD)
    then have "q \<in> set ?list" by (simp add: set_sort_by)
    then obtain proc where q: "q = normalize_proc proc" by auto
    from cpuPercent_normalize_proc [of proc] ramMB_normalize_proc [of proc]
    show ?thesis unfolding q by auto
  qed
    show ?thesis
      using p raw top tops srt stable srt5 rng by (auto simp: mset_sort_by)
  qed
qed

lemma sample_normalized:
  "map (\<lambda>q. (pid q, cpuPercent q, ramMB q)) (map normalize_proc sample_processes) =
     [(JNum (Fin 1), Fin 10, Fin 1), (JNum (Fin 2), Fin 50, Fin 2), (JNum (Fin 3), Fin 50, Fin 0),
      (JNum (Fin 4), Fin 100, Fin 0), (JNum (Fin 5), Fin 0, Fin 0), (JNum (Fin 6), Fin 0, Fin 0)]"
  by (simp add: sample_processes_def normalize_proc_def clamp_def Math_max_def Math_min_def
      Number_or0_def or0_def truthy_num_def bytesToMB_def
      StringToNumber_def trim_def is_ws_def starts_with_def parse_unsigned_decimal_def
      is_digit_in_def digit_val_def Let_def parse_exponent_def digits_val_def pow10_def)

lemma sample_top5:
  "map (\<lambda>q. (pid q, cpuPercent q, ramMB q))
     (take 5 (sort_by by_cpu_desc (map normalize_proc sample_processes))) =
     [(JNum (Fin 4), Fin 100, Fin 0), (JNum (Fin 2), Fin 50, Fin 2), (JNum (Fin 3), Fin 50, Fin 0),
      (JNum (Fin 1), Fin 10, Fin 1), (JNum (Fin 5), Fin 0, Fin 0)]"
  by (simp add: sample_processes_def normalize_proc_def clamp_def Math_max_def Math_min_def
      Number_or0_def or0_def truthy_num_def bytesToMB_def
      StringToNumber_def trim_def is_ws_def starts_with_def parse_unsigned_decimal_def
      is_digit_in_def digit_val_def Let_def parse_exponent_def digits_val_def pow10_def
      sort_by_def by_cpu_desc_def jsub_def jgt_def)

text \<open>
  On the sample process list: the load of 150 is clamped and comes first, the two processes
  at 50 keep their order, and of the two at 0 the first one takes the fifth place.
\<close>

theorem topProcesses_top5_witness:
  "\<exists>pl st'. collectSnapshot sample_config (init_state 0) 1000 sample_provider = (Inr pl, st') \<and>
     map (\<lambda>q. (pid q, cpuPercent q, ramMB q)) (topProcesses pl) =
       [(JNum (Fin 4), Fin 100, Fin 0), (JNum (Fin 2), Fin 50, Fin 2), (JNum (Fin 3), Fin 50, Fin 0),
        (JNum (Fin 1), Fin 10, Fin 1), (JNum (Fin 5), Fin 0, Fin 0)]"
proof -
  from collectSnapshot_completes [OF sample_resolves] obtain pl st'
    where c: "collectSnapshot sample_config (init_state 0) 1000 sample_provider = (Inr pl, st')"
    by blast
  from topProcesses_top5 [OF c] obtain p raw
    where p: "si_processes sample_provider = Resolves (Some p)"
      and raw: "(case p_list p of None \<Rightarrow> [] | Some l \<Rightarrow> l) = map Some raw"
      and top: "topProcesses pl = take 5 (sort_by by_cpu_desc (map normalize_proc raw))"
    by blast
  from p raw have "raw = sample_processes"
    by (auto simp: sample_provider_def)
  with top sample_top5 c show ?thesis by simp
qed

section \<open>Percentages\<close>














section \<open>Failed cycles and requests\<close>

lemma collectSnapshot_fails:
  assumes "\<not> reading_resolves si"
  obtains e st' where "collectSnapshot cfg st now si = (Inl e, st')"
    and "history st' = history st" and "lastPayload st' = lastPayload st"
proof -
  obtain r st' where c: "collectSnapshot cfg st now si = (r, st')"
    by (cases "collectSnapshot cfg st now si")
  show ?thesis
  proof (cases r)
    case (Inl e)
    with c have c': "collectSnapshot cfg st now si = (Inl e, st')" by simp
    from collectSnapshot_failure_frame [OF c'] c' show ?thesis
      by (auto intro: that)
  next
    case (Inr pl)
    with c have "reading_resolves si"
      by (auto intro: collectSnapshot_completes_only_if)
    with assms show ?thesis by simp
  qed
qed

lemma sampling_tick_fails:
  assumes "\<not> reading_resolves si"
  shows "lastPayload (fst (sampling_tick cfg st now si)) = lastPayload st"
proof (rule collectSnapshot_fails [OF assms])
  fix e st'
  assume "collectSnapshot cfg st now si = (Inl e, st')" "lastPayload st' = lastPayload st"
  then show ?thesis by (simp add: sampling_tick_def)
qed

lemma warm_up_fails:
  assumes "\<not> reading_resolves si"
  shows "lastPayload (fst (warm_up cfg st now si)) = lastPayload st"
proof (rule collectSnapshot_fails [OF assms])
  fix e st'
  assume "collectSnapshot cfg st now si = (Inl e, st')" "lastPayload st' = lastPayload st"
  then show ?thesis by (simp add: warm_up_def)
qed

lemma sampling_loop_fails:
  "\<forall>(now, si)\<in>set ticks. \<not> reading_resolves si \<Longrightarrow>
   lastPayload (fst (sampling_loop cfg st ticks)) = lastPayload st"
proof (induction ticks arbitrary: st)
  case Nil
  then show ?case by simp
next
  case (Cons tick ticks)
  obtain now si where tick: "tick = (now, si)" by (cases tick)
  with Cons.prems have f: "\<not> reading_resolves si" by simp
  from Cons have "lastPayload (fst (sampling_loop cfg (fst (sampling_tick cfg st now si)) ticks))
      = lastPayload (fst (sampling_tick cfg st now si))"
    by simp
  with sampling_tick_fails [OF f, of cfg st now] show ?case
    by (simp add: tick split_beta)
qed

text \<open>
  Claim C7. As long as no cycle has completed (the module has just loaded, or the warm-up and
  every tick since have failed), \<open>lastPayload\<close> is \<open>null\<close>: a \<open>health:request\<close> is answered with
  \<open>health:error\<close> and the message \<open>No data yet.\<close>, and \<open>GET /api/health/latest\<close> with status 503
  and the body \<open>{ok: false, message: "No data yet."}\<close>.
\<close>

theorem no_data_yet:
  assumes "\<not> reading_resolves si0"
    and "\<forall>(now, si)\<in>set ticks. \<not> reading_resolves si"
  shows "on_health_request (init_state t0) socket = [socket_emit socket (health_error ''No data yet.'' None)] \<and>
     GET_api_health_latest (init_state t0) = (503, ok_false_message ''No data yet.'') \<and>
     on_health_request (fst (startSampling cfg (init_state t0) now0 si0 ticks)) socket =
       [socket_emit socket (health_error ''No data yet.'' None)] \<and>
     GET_api_health_latest (fst (startSampling cfg (init_state t0) now0 si0 ticks)) =
       (503, ok_false_message ''No data yet.'')"
proof -
  have i: "lastPayload (init_state t0) = None"
    by (simp add: init_state_def)
  have "lastPayload (fst (startSampling cfg (init_state t0) now0 si0 ticks)) =
      lastPayload (fst (warm_up cfg (init_state t0) now0 si0))"
    using sampling_loop_fails [OF assms(2), of cfg "fst (warm_up cfg (init_state t0) now0 si0)"]
    by (simp add: startSampling_def split_beta)
  with warm_up_fails [OF assms(1), of cfg "init_state t0" now0] i
  have s: "lastPayload (fst (startSampling cfg (init_state t0) now0 si0 ticks)) = None"
    by simp
  show ?thesis
    by (simp add: on_health_request_def GET_api_health_latest_def i s)
qed

lemma no_sensor_fails: "\<not> reading_resolves no_sensor_provider"
  by (simp add: reading_resolves_def no_sensor_provider_def sample_provider_def resolves_object_def)

lemma no_memory_fails: "\<not> reading_resolves no_memory_provider"
  by (simp add: reading_resolves_def no_memory_provider_def sample_provider_def resolves_object_def)

text \<open>A warm-up and two ticks that all fail.\<close>

theorem no_data_yet_witness:
  "on_health_request
     (fst (startSampling sample_config (init_state 0) 1000 no_sensor_provider
        [(2000, no_memory_provider), (3000, no_sensor_provider)])) 7 =
     [socket_emit 7 (health_error ''No data yet.'' None)] \<and>
   GET_api_health_latest
     (fst (startSampling sample_config (init_state 0) 1000 no_sensor_provider
        [(2000, no_memory_provider), (3000, no_sensor_provider)])) =
     (503, ok_false_message ''No data yet.'')"
proof -
  have t: "\<forall>(now, si)\<in>set [(2000, no_memory_provider), (3000, no_sensor_provider)].
      \<not> reading_resolves si"
    using no_sensor_fails no_memory_fails by simp
  from no_data_yet [OF no_sensor_fails t] show ?thesis by simp
qed

lemma no_memory_error:
  "fst (collectSnapshot cfg st now no_memory_provider) = Inl (Rejection ''mem failed'')"
  by (simp add: collectSnapshot_def Let_def split_beta no_memory_provider_def sample_provider_def
      split: sum.splits)


text \<open>
  Claim C4. When \<open>collectSnapshot\<close> throws in the interval callback, the callback emits
  \<open>health:error\<close> with the message \<open>Sampling failed\<close> and no \<open>health:update\<close>; \<open>lastPayload\<close> and
  the history arrays are what they were, so a later \<open>health:request\<close>, the REST route and the
  heartbeat answer exactly as before the tick: with the previous payload when there is one.
\<close>

theorem failed_cycle_keeps_latest:
  assumes "collectSnapshot cfg st now si = (Inl e, st')"
  shows "sampling_tick cfg st now si = (st', [io_emit (health_error ''Sampling failed'' (Some e))]) \<and>
     lastPayload st' = lastPayload st \<and>
     history st' = history st \<and>
     on_health_request st' socket = on_health_request st socket \<and>
     GET_api_health_latest st' = GET_api_health_latest st \<and>
     heartbeat st' = heartbeat st \<and>
     (\<forall>pl. lastPayload st = Some pl \<longrightarrow>
        on_health_request st' socket = [socket_emit socket (health_update (serialise st pl))])"
proof -
  from collectSnapshot_failure_frame [OF assms]
  have fr: "history st' = history st" "lastPayload st' = lastPayload st" by simp_all
  have t: "sampling_tick cfg st now si = (st', [io_emit (health_error ''Sampling failed'' (Some e))])"
    using assms by (simp add: sampling_tick_def)
  show ?thesis
    using t fr
    by (simp add: on_health_request_def GET_api_health_latest_def heartbeat_def serialise_def
        split: option.splits)
qed

text \<open>A cycle on the sample reading, then a tick whose memory read rejects.\<close>

theorem failed_cycle_keeps_latest_witness:
  "\<exists>pl st1 st2.
     collectSnapshot sample_config (init_state 0) 1000 sample_provider = (Inr pl, st1) \<and>
     sampling_tick sample_config st1 2000 no_memory_provider =
       (st2, [io_emit (health_error ''Sampling failed'' (Some (Rejection ''mem failed'')))]) \<and>
     lastPayload st2 = Some pl \<and>
     on_health_request st2 7 = [socket_emit 7 (health_update (serialise st1 pl))]"
proof -
  from collectSnapshot_completes [OF sample_resolves] obtain pl st1
    where c: "collectSnapshot sample_config (init_state 0) 1000 sample_provider = (Inr pl, st1)"
    by blast
  have l: "lastPayload st1 = Some pl"
    using c by (rule collectSnapshot_state)
  obtain st2 where f: "collectSnapshot sample_config st1 2000 no_memory_provider
      = (Inl (Rejection ''mem failed''), st2)"
    using no_memory_error [of sample_config st1 2000]
    by (cases "collectSnapshot sample_config st1 2000 no_memory_provider") simp
  from failed_cycle_keeps_latest [OF f, of 7] c l show ?thesis
    by auto
qed

section \<open>Histories inside a payload\<close>

lemma collectSnapshot_refs:
  assumes "collectSnapshot cfg st now si = (Inr pl, st')"
  shows "cpuLoad_history pl = history_cpuLoad"
    and "cpuSpeed_historyAvgGHz pl = history_cpuAvgGHz"
    and "cpuTemp_historyMainC pl = history_cpuTempC"
    and "memory_historyUsedPercent pl = history_memUsedPercent"
    and "diskActivity_historyReadMBps pl = history_diskReadMBps"
    and "diskActivity_historyWriteMBps pl = history_diskWriteMBps"
    and "network_historyDownMBps pl = history_netDownMBps"
    and "network_historyUpMBps pl = history_netUpMBps"
    and "timestampMs pl = now"
    and "meta_historyPoints pl = HISTORY_POINTS cfg"
    and "meta_sampleIntervalMs pl = SAMPLE_INTERVAL_MS cfg"
proof -
  have "\<exists>st3 cl pc cs ct m du dthr nthr up tp.
          pl = fst (collectSnapshot_body cfg st3 now cl pc cs ct m du dthr nthr up tp)"
  proof (rule collectSnapshot_success [OF assms])
    fix cpuLoad cpus cpuSpeed cpuTemp mem diskUsage diskThroughput netThroughput uptime
      topProcs dtSec st2 st3
    assume "collectSnapshot_body cfg st3 now cpuLoad
           (map (\<lambda>c. clamp (Number_or0 (c_load c)) (Fin 0) (Fin 100)) cpus)
           cpuSpeed cpuTemp mem diskUsage diskThroughput netThroughput uptime topProcs = (pl, st')"
    then have "pl = fst (collectSnapshot_body cfg st3 now cpuLoad
           (map (\<lambda>c. clamp (Number_or0 (c_load c)) (Fin 0) (Fin 100)) cpus)
           cpuSpeed cpuTemp mem diskUsage diskThroughput netThroughput uptime topProcs)"
      by simp
    then show ?thesis by blast
  qed
  then obtain st3 cl pc cs ct m du dthr nthr up tp
    where pl: "pl = fst (collectSnapshot_body cfg st3 now cl pc cs ct m du dthr nthr up tp)"
    by blast
  show "cpuLoad_history pl = history_cpuLoad"
    and "cpuSpeed_historyAvgGHz pl = history_cpuAvgGHz"
    and "cpuTemp_historyMainC pl = history_cpuTempC"
    and "memory_historyUsedPercent pl = history_memUsedPercent"
    and "diskActivity_historyReadMBps pl = history_diskReadMBps"
    and "diskActivity_historyWriteMBps pl = history_diskWriteMBps"
    and "network_historyDownMBps pl = history_netDownMBps"
    and "network_historyUpMBps pl = history_netUpMBps"
    and "timestampMs pl = now"
    and "meta_historyPoints pl = HISTORY_POINTS cfg"
    and "meta_sampleIntervalMs pl = SAMPLE_INTERVAL_MS cfg"
    by (simp_all add: pl collectSnapshot_body_def Let_def)
qed

text \<open>
  Claim C3, amended. The payload holds the history arrays themselves. Every payload refers
  to the same eight arrays, so after the next cycle completes, each history sequence seen
  through the payload returned before is the array after that cycle's push: the earlier
  contents with the new point appended and, at capacity, the oldest point dropped (the
  temperature array is left alone when the new temperature is unavailable).
\<close>

theorem snapshot_history_is_live:
  assumes "collectSnapshot cfg st0 now1 si1 = (Inr pl1, st1)"
    and "collectSnapshot cfg st1 now2 si2 = (Inr pl2, st2)"
  shows "cpuLoad_history pl1 = cpuLoad_history pl2 \<and>
     cpuSpeed_historyAvgGHz pl1 = cpuSpeed_historyAvgGHz pl2 \<and>
     cpuTemp_historyMainC pl1 = cpuTemp_historyMainC pl2 \<and>
     memory_historyUsedPercent pl1 = memory_historyUsedPercent pl2 \<and>
     diskActivity_historyReadMBps pl1 = diskActivity_historyReadMBps pl2 \<and>
     diskActivity_historyWriteMBps pl1 = diskActivity_historyWriteMBps pl2 \<and>
     network_historyDownMBps pl1 = network_historyDownMBps pl2 \<and>
     network_historyUpMBps pl1 = network_historyUpMBps pl2 \<and>
     history_seen st2 (cpuLoad_history pl1) =
       pushRolling cfg (history_seen st1 (cpuLoad_history pl1))
         \<lparr>point_t = now2, point_v = cpuLoad_overallPercent pl2\<rparr> \<and>
     history_seen st2 (cpuSpeed_historyAvgGHz pl1) =
       pushRolling cfg (history_seen st1 (cpuSpeed_historyAvgGHz pl1))
         \<lparr>point_t = now2, point_v = cpuSpeed_avgGHz pl2\<rparr> \<and>
     history_seen st2 (cpuTemp_historyMainC pl1) =
       (case cpuTemp_mainC pl2 of
          Some temp \<Rightarrow> pushRolling cfg (history_seen st1 (cpuTemp_historyMainC pl1))
                         \<lparr>point_t = now2, point_v = temp\<rparr>
        | None \<Rightarrow> history_seen st1 (cpuTemp_historyMainC pl1)) \<and>
     history_seen st2 (memory_historyUsedPercent pl1) =
       pushRolling cfg (history_seen st1 (memory_historyUsedPercent pl1))
         \<lparr>point_t = now2, point_v = memory_usedPercent pl2\<rparr> \<and>
     history_seen st2 (diskActivity_historyReadMBps pl1) =
       pushRolling cfg (history_seen st1 (diskActivity_historyReadMBps pl1))
         \<lparr>point_t = now2, point_v = diskActivity_readMBps pl2\<rparr> \<and>
     history_seen st2 (diskActivity_historyWriteMBps pl1) =
       pushRolling cfg (history_seen st1 (diskActivity_historyWriteMBps pl1))
         \<lparr>point_t = now2, point_v = diskActivity_writeMBps pl2\<rparr> \<and>
     history_seen st2 (network_historyDownMBps pl1) =
       pushRolling cfg (history_seen st1 (network_historyDownMBps pl1))
         \<lparr>point_t = now2, point_v = network_downMBps pl2\<rparr> \<and>
     history_seen st2 (network_historyUpMBps pl1) =
       pushRolling cfg (history_seen st1 (network_historyUpMBps pl1))
         \<lparr>point_t = now2, point_v = network_upMBps pl2\<rparr>"
  using collectSnapshot_refs [OF assms(1)] collectSnapshot_refs [OF assms(2)]
    collectSnapshot_state [OF assms(2)]
  by (simp add: history_seen_def split: option.splits)

lemma first_cycle_ok: "\<exists>pl st. first_cycle = (Inr pl, st)"
  unfolding first_cycle_def by (rule collectSnapshot_completes [OF sample_resolves])

lemma second_cycle_ok: "\<exists>pl st. second_cycle = (Inr pl, st)"
  unfolding second_cycle_def by (rule collectSnapshot_completes [OF sample_resolves])

lemma pushRolling_length_sample:
  "length arr < 3 \<Longrightarrow> length (pushRolling sample_config arr item) = Suc (length arr)"
  by (simp add: pushRolling_def sample_config_def Let_def)

lemma sample_overall:
  assumes "collectSnapshot cfg st now sample_provider = (Inr pl, st')"
  shows "cpuLoad_overallPercent pl = Fin 40"
proof (rule collectSnapshot_payload [OF assms])
  fix cl
  assume "si_currentLoad sample_provider = Resolves (Some cl)"
    and o: "cpuLoad_overallPercent pl = clamp (Number_or0 (cpuLoad_currentLoad cl)) (Fin 0) (Fin 100)"
  then have "cpuLoad_currentLoad cl = JNum (Fin 40)"
    by (auto simp: sample_provider_def)
  with o show ?thesis
    by (simp add: Number_or0_def or0_def truthy_num_def clamp_def Math_max_def Math_min_def)
qed

text \<open>
  Claim C3 as stated fails: the CPU-load history inside the payload of the first cycle has
  one point when that cycle returns and two points after the second cycle.
\<close>

theorem snapshot_history_is_live_counterexample:
  "map_sum id (history_seen (snd first_cycle) \<circ> cpuLoad_history) (fst first_cycle) =
     Inr [\<lparr>point_t = 1000, point_v = Fin 40\<rparr>] \<and>
   map_sum id (history_seen (snd second_cycle) \<circ> cpuLoad_history) (fst first_cycle) =
     Inr [\<lparr>point_t = 1000, point_v = Fin 40\<rparr>, \<lparr>point_t = 2000, point_v = Fin 40\<rparr>]"
proof -
  from first_cycle_ok obtain pl1 st1 where c1: "first_cycle = (Inr pl1, st1)" by blast
  from second_cycle_ok obtain pl2 st2 where c2: "second_cycle = (Inr pl2, st2)" by blast
  from c1 have k1: "collectSnapshot sample_config (init_state 0) 1000 sample_provider = (Inr pl1, st1)"
    by (simp add: first_cycle_def)
  have "snd first_cycle = st1" by (simp add: c1)
  with c2 have k2: "collectSnapshot sample_config st1 2000 sample_provider = (Inr pl2, st2)"
    by (simp add: second_cycle_def)
  have r: "cpuLoad_history pl1 = history_cpuLoad"
    using k1 by (rule collectSnapshot_refs)
  have h1: "history st1 history_cpuLoad = [\<lparr>point_t = 1000, point_v = Fin 40\<rparr>]"
    using collectSnapshot_state(3) [OF k1] sample_overall [OF k1]
    by (simp add: init_state_def pushRolling_def sample_config_def)
  have h2: "history st2 history_cpuLoad =
      [\<lparr>point_t = 1000, point_v = Fin 40\<rparr>, \<lparr>point_t = 2000, point_v = Fin 40\<rparr>]"
    using collectSnapshot_state(3) [OF k2] sample_overall [OF k2] h1
    by (simp add: pushRolling_def sample_config_def)
  show ?thesis
    by (simp add: c1 c2 r h1 h2 history_seen_def)
qed

text \<open>The two successive cycles on the sample reading.\<close>

theorem snapshot_history_is_live_witness:
  "\<exists>pl1 st1 pl2 st2.
     first_cycle = (Inr pl1, st1) \<and> second_cycle = (Inr pl2, st2) \<and>
     cpuLoad_history pl1 = cpuLoad_history pl2 \<and>
     history_seen st2 (cpuLoad_history pl1) =
       pushRolling sample_config (history_seen st1 (cpuLoad_history pl1))
         \<lparr>point_t = 2000, point_v = cpuLoad_overallPercent pl2\<rparr> \<and>
     history_seen st2 (cpuLoad_history pl1) \<noteq> history_seen st1 (cpuLoad_history pl1)"
proof -
  from first_cycle_ok obtain pl1 st1 where c1: "first_cycle = (Inr pl1, st1)" by blast
  from second_cycle_ok obtain pl2 st2 where c2: "second_cycle = (Inr pl2, st2)" by blast
  from c1 have k1: "collectSnapshot sample_config (init_state 0) 1000 sample_provider = (Inr pl1, st1)"
    by (simp add: first_cycle_def)
  have "snd first_cycle = st1" by (simp add: c1)
  with c2 have k2: "collectSnapshot sample_config st1 2000 sample_provider = (Inr pl2, st2)"
    by (simp add: second_cycle_def)
  have r: "cpuLoad_history pl1 = history_cpuLoad"
    using k1 by (rule collectSnapshot_refs)
  have h1: "length (history st1 history_cpuLoad) = 1"
    using collectSnapshot_state(3) [OF k1]
    by (simp add: init_state_def pushRolling_length_sample)
  have h2: "length (history st2 history_cpuLoad) = 2"
    using collectSnapshot_state(3) [OF k2] h1
    by (simp add: pushRolling_length_sample)
  from h1 h2 have ne: "history st2 history_cpuLoad \<noteq> history st1 history_cpuLoad"
    by auto
  from snapshot_history_is_live [OF k1 k2]
  have a: "cpuLoad_history pl1 = cpuLoad_history pl2"
    and b: "history_seen st2 (cpuLoad_history pl1) =
       pushRolling sample_config (history_seen st1 (cpuLoad_history pl1))
         \<lparr>point_t = 2000, point_v = cpuLoad_overallPercent pl2\<rparr>"
    by blast+
  have ne': "history_seen st2 (cpuLoad_history pl1) \<noteq> history_seen st1 (cpuLoad_history pl1)"
    using ne r by (simp add: history_seen_def)
  from c1 c2 a b ne' show ?thesis by blast
qed

section \<open>The rates in the payload\<close>




section \<open>Unavailable readings\<close>










section \<open>NaN\<close>















section \<open>A read that fails\<close>





end
